theory Spec2Isabelle
  imports Complex_Main
begin

section \<open>Floating-point values\<close>

text \<open>
  The program computes with IEEE doubles inside pandas and numpy. Rounding and overflow are
  not modelled: a finite double is a real number and arithmetic on finite values is exact.
  The one exception is the standard deviation of the example columns, see \<open>pd_std\<close>.
  The special values are modelled, because the code relies on them: \<open>NaN\<close> is pandas'
  marker for a missing entry (\<open>reindex\<close>, \<open>replace\<close>, the \<open>weight_sum\<close> default) and
  division by zero does not raise but yields an infinity or \<open>NaN\<close>. The two zeros of
  IEEE are one value here; a nonzero value divided by zero takes the sign of the numerator.
\<close>

datatype fl = Fin real | PInf | NInf | NaN

fun fneg :: "fl \<Rightarrow> fl" where
  "fneg (Fin a) = Fin (- a)"
| "fneg PInf = NInf"
| "fneg NInf = PInf"
| "fneg NaN = NaN"

fun fabs :: "fl \<Rightarrow> fl" where
  "fabs (Fin a) = Fin \<bar>a\<bar>"
| "fabs PInf = PInf"
| "fabs NInf = PInf"
| "fabs NaN = NaN"

fun fadd :: "fl \<Rightarrow> fl \<Rightarrow> fl" where
  "fadd NaN _ = NaN"
| "fadd _ NaN = NaN"
| "fadd (Fin a) (Fin b) = Fin (a + b)"
| "fadd PInf NInf = NaN"
| "fadd NInf PInf = NaN"
| "fadd PInf _ = PInf"
| "fadd _ PInf = PInf"
| "fadd NInf _ = NInf"
| "fadd _ NInf = NInf"

definition fsub :: "fl \<Rightarrow> fl \<Rightarrow> fl" where
  "fsub a b = fadd a (fneg b)"

text \<open>The infinity with the sign of a nonzero real, \<open>NaN\<close> for zero.\<close>

definition signed_inf :: "real \<Rightarrow> fl" where
  "signed_inf a = (if a = 0 then NaN else if 0 < a then PInf else NInf)"

fun fmul :: "fl \<Rightarrow> fl \<Rightarrow> fl" where
  "fmul NaN _ = NaN"
| "fmul _ NaN = NaN"
| "fmul (Fin a) (Fin b) = Fin (a * b)"
| "fmul (Fin a) PInf = signed_inf a"
| "fmul (Fin a) NInf = signed_inf (- a)"
| "fmul PInf (Fin b) = signed_inf b"
| "fmul NInf (Fin b) = signed_inf (- b)"
| "fmul PInf PInf = PInf"
| "fmul NInf NInf = PInf"
| "fmul PInf NInf = NInf"
| "fmul NInf PInf = NInf"

fun fdiv :: "fl \<Rightarrow> fl \<Rightarrow> fl" where
  "fdiv NaN _ = NaN"
| "fdiv _ NaN = NaN"
| "fdiv (Fin a) (Fin b) = (if b = 0 then signed_inf a else Fin (a / b))"
| "fdiv (Fin a) _ = Fin 0"
| "fdiv PInf (Fin b) = (if 0 \<le> b then PInf else NInf)"
| "fdiv NInf (Fin b) = (if 0 \<le> b then NInf else PInf)"
| "fdiv _ _ = NaN"

definition isnan :: "fl \<Rightarrow> bool" where
  "isnan v \<longleftrightarrow> v = NaN"

fun is_fin :: "fl \<Rightarrow> bool" where
  "is_fin (Fin a) = True"
| "is_fin _ = False"

text \<open>
  \<open>np.sum\<close> over an array adds every entry, so one \<open>NaN\<close> makes the sum \<open>NaN\<close>.
  The \<open>sum\<close> method of a pandas Series skips \<open>NaN\<close> entries (\<open>skipna=True\<close>) and
  is \<open>0.0\<close> on an empty or all-\<open>NaN\<close> Series; infinities are not skipped.
\<close>

fun np_sum :: "fl list \<Rightarrow> fl" where
  "np_sum [] = Fin 0"
| "np_sum (v # vs) = fadd v (np_sum vs)"

definition pd_sum :: "fl list \<Rightarrow> fl" where
  "pd_sum vs = np_sum (filter (\<lambda>v. \<not> isnan v) vs)"

section \<open>Tables\<close>

text \<open>
  A date is a day number; \<open>(d' - d).days\<close> is the difference of two day numbers.
  A DataFrame is its column labels and its rows in index order, each row the index label
  and the values of the row, one per column. A Series indexed by dates is a list of pairs.
  The date indexes are taken to have unique labels, as the spec's data model requires
  (dates strictly increasing), so that \<open>.loc[d]\<close> selects one row; the theorems state
  this where they need it. A Series over the columns of a table (a row, the share
  holdings, a vector of standard deviations) is the list of its values in column order:
  the price table, the weight schedule and every Series derived from them carry the same
  column labels, so that pandas' alignment by label is the positional pairing.
\<close>

type_synonym date = int

type_synonym series = "(date \<times> fl) list"

record frame =
  columns :: "string list"
  rows :: "(date \<times> fl list) list"

datatype error = IndexError | ValueError | ZeroDivisionError

definition index :: "frame \<Rightarrow> date list" where
  "index df = map fst (rows df)"

definition iloc :: "frame \<Rightarrow> nat \<Rightarrow> fl list" where
  "iloc df i = snd (rows df ! i)"

text \<open>\<open>df.loc[d]\<close> for a label that is in the index; a row of \<open>NaN\<close> stands for no row.\<close>

definition loc :: "frame \<Rightarrow> date \<Rightarrow> fl list" where
  "loc df d = (case map_of (rows df) d of Some r \<Rightarrow> r
               | None \<Rightarrow> replicate (length (columns df)) NaN)"

definition series_loc :: "series \<Rightarrow> date \<Rightarrow> fl" where
  "series_loc s d = (case map_of s d of Some v \<Rightarrow> v | None \<Rightarrow> NaN)"

text \<open>
  \<open>s.reindex(dates)\<close>: the value of \<open>s\<close> at each of the given dates, \<open>NaN\<close> where
  \<open>s\<close> has no entry. \<open>ffill\<close> replaces each \<open>NaN\<close> by the last value before it that
  is not \<open>NaN\<close>, and leaves leading \<open>NaN\<close>s.
\<close>

definition reindex :: "series \<Rightarrow> date list \<Rightarrow> fl list" where
  "reindex s dates = map (series_loc s) dates"

fun ffill_from :: "fl \<Rightarrow> fl list \<Rightarrow> fl list" where
  "ffill_from prev [] = []"
| "ffill_from prev (v # vs) =
     (if isnan v then prev # ffill_from prev vs else v # ffill_from v vs)"

definition ffill :: "fl list \<Rightarrow> fl list" where
  "ffill vs = ffill_from NaN vs"

text \<open>
  The representation invariant of a table: the labels of the index are unique and every
  row has one value per column.
\<close>

definition wf_frame :: "frame \<Rightarrow> bool" where
  "wf_frame df \<longleftrightarrow> distinct (index df) \<and> list_all (\<lambda>r. length (snd r) = length (columns df)) (rows df)"

text \<open>
  Values that are not an infinity, and values that are finite and not zero; tables all of
  whose entries are of that kind.
\<close>

fun no_inf :: "fl \<Rightarrow> bool" where
  "no_inf PInf = False"
| "no_inf NInf = False"
| "no_inf v = True"

fun nonzero_fin :: "fl \<Rightarrow> bool" where
  "nonzero_fin (Fin a) = (a \<noteq> 0)"
| "nonzero_fin v = False"

definition no_inf_frame :: "frame \<Rightarrow> bool" where
  "no_inf_frame df \<longleftrightarrow> list_all (\<lambda>r. list_all no_inf (snd r)) (rows df)"

definition nonzero_fin_frame :: "frame \<Rightarrow> bool" where
  "nonzero_fin_frame df \<longleftrightarrow> list_all (\<lambda>r. list_all nonzero_fin (snd r)) (rows df)"

section \<open>make_ER\<close>

text \<open>
  The body of the loop of \<open>make_ER\<close> for one \<open>i\<close>. \<open>rate\<close> is the reindexed and
  forward-filled rate series, read by label at \<open>dates[i-1]\<close>. Python evaluates
  \<open>r * days / 36000.\<close> from the left.
\<close>

definition ER_step :: "frame \<Rightarrow> series \<Rightarrow> date list \<Rightarrow> nat \<Rightarrow> fl list list \<Rightarrow> fl list list" where
  "ER_step price rate dates i price_ER =
     price_ER[i := map2 fmul (price_ER ! (i - 1))
        (map (\<lambda>q. fsub q (fdiv (fmul (series_loc rate (dates ! (i - 1)))
                                     (Fin (of_int (dates ! i - dates ! (i - 1)))))
                               (Fin 36000)))
             (map2 fdiv (iloc price i) (iloc price (i - 1))))]"

text \<open>
  The table \<open>price_ER\<close> when the loop has ended: it starts with \<open>NaN\<close> everywhere,
  row \<open>0\<close> is set to \<open>1.\<close>, and the rate series is reindexed on the dates of the price
  table and forward-filled there.
\<close>

definition ER_loop :: "frame \<Rightarrow> series \<Rightarrow> fl list list" where
  "ER_loop price rate =
     (let dates = index price;
          n = length dates;
          m = length (columns price);
          price_ER = (replicate n (replicate m NaN))[0 := replicate m (Fin 1)];
          rate' = zip dates (ffill (reindex rate dates))
      in fold (ER_step price rate' dates) [1..<n] price_ER)"

text \<open>
  Setting row \<open>0\<close> of a table without rows raises \<open>IndexError\<close>, and \<open>reindex\<close>
  raises \<open>ValueError\<close> on a rate series with a repeated date.
\<close>

definition make_ER :: "frame \<Rightarrow> series \<Rightarrow> error + frame" where
  "make_ER price rate =
     (if length (index price) = 0 then Inl IndexError
      else if \<not> distinct (map fst rate) then Inl ValueError
      else Inr \<lparr>columns = columns price, rows = zip (index price) (ER_loop price rate)\<rparr>)"

section \<open>make_track\<close>

text \<open>
  The loop of \<open>make_track\<close> carries the share holdings, the cash balance and the array
  \<open>value\<close>, which \<open>np.ones(n)\<close> creates and the loop writes at index \<open>i\<close>.
\<close>

record track_state =
  shares :: "fl list"
  cash :: fl
  value_arr :: "fl list"

text \<open>
  \<open>make_track\<close> works on Series over the instruments, which pandas pairs by column
  label. The model pairs them by position; this is the pairing by label when the weight
  schedule has the columns of the price table, in the same order and without a repeated
  label, which the theorems on \<open>make_track\<close> assume (\<open>track_tables_ok\<close> below),
  together with strictly increasing dates in both tables.

  \<open>(df_weight / df_price).iloc[0]\<close>: the division aligns the two tables on their date
  indexes. Equal indexes are kept as they are; otherwise the result is indexed by the
  union of the two in date order, so that its first row is the row of the earliest date
  of either table. A table with no row at that date contributes \<open>NaN\<close>. The price table
  has a row here: \<open>make_track\<close> has raised before on an empty one.
\<close>

definition first_label :: "frame \<Rightarrow> frame \<Rightarrow> date" where
  "first_label df_weight df_price =
     (if index df_weight = index df_price then hd (index df_price)
      else Min (set (index df_weight) \<union> set (index df_price)))"

definition track_init :: "frame \<Rightarrow> frame \<Rightarrow> track_state" where
  "track_init df_price df_weight =
     (let d0 = first_label df_weight df_price;
          shares0 = map2 fdiv (loc df_weight d0) (loc df_price d0);
          cash0 = fsub (Fin 1) (pd_sum (map2 fmul shares0 (iloc df_price 0)))
      in \<lparr>shares = shares0, cash = cash0,
          value_arr = replicate (length (index df_price)) (Fin 1)\<rparr>)"

text \<open>
  One iteration of the loop. Python evaluates \<open>tc * value[i-1] * X\<close> and
  \<open>w * value[i] / p\<close> from the left, and \<open>a - cost + cash\<close> as \<open>(a - cost) + cash\<close>.
\<close>

definition track_step :: "frame \<Rightarrow> frame \<Rightarrow> fl \<Rightarrow> nat \<Rightarrow> track_state \<Rightarrow> track_state" where
  "track_step df_price df_weight tc i st =
     (let idx = index df_price
      in if idx ! (i - 1) \<in> set (index df_weight) then
           let w = loc df_weight (idx ! (i - 1));
               v_prev = value_arr st ! (i - 1);
               cost = fmul (fmul tc v_prev)
                        (pd_sum (map fabs (map2 fsub w
                           (map (\<lambda>h. fdiv h v_prev)
                              (map2 fmul (shares st) (loc df_price (idx ! (i - 1))))))));
               v = fadd (fsub (pd_sum (map2 fmul (shares st) (loc df_price (idx ! i)))) cost)
                        (cash st);
               shares' = map2 fdiv (map (\<lambda>x. fmul x v) w) (loc df_price (idx ! i));
               cash' = fsub v (pd_sum (map2 fmul shares' (loc df_price (idx ! i))))
           in \<lparr>shares = shares', cash = cash', value_arr = (value_arr st)[i := v]\<rparr>
         else
           st\<lparr>value_arr := (value_arr st)
                [i := fadd (pd_sum (map2 fmul (shares st) (loc df_price (idx ! i)))) (cash st)]\<rparr>)"

text \<open>The state after the iterations \<open>i = 1, ..., k - 1\<close> of the loop.\<close>

definition track_run :: "frame \<Rightarrow> frame \<Rightarrow> fl \<Rightarrow> nat \<Rightarrow> track_state" where
  "track_run df_price df_weight tc k =
     fold (track_step df_price df_weight tc) [1..<k] (track_init df_price df_weight)"

definition make_track :: "frame \<Rightarrow> frame \<Rightarrow> fl \<Rightarrow> error + frame" where
  "make_track df_price df_weight tc =
     (let idx = index df_price;
          n = length idx
      in if n = 0 then Inl IndexError
         else Inr \<lparr>columns = [''Track''],
                   rows = zip idx (map (\<lambda>v. [v])
                            (value_arr (track_run df_price df_weight tc n)))\<rparr>)"

section \<open>The rolling regressions\<close>

subsection \<open>The optimizer\<close>

text \<open>
  \<open>scipy.optimize.minimize\<close> is not code of this program; the estimators take it as a
  parameter. It receives the objective, the start vector, the constraints (a dictionary
  \<open>{'type': 'eq', 'fun': g}\<close> asks for \<open>g z = 0\<close>) and one pair of bounds per
  coefficient, and returns a result with the vector \<open>x\<close> and the flag \<open>success\<close>.
  SLSQP flattens the start vector, so that the objective is called on vectors of shape
  \<open>(m,)\<close>; it is taken to call the objective at finite vectors only.
\<close>

datatype constraint = EqCons "real list \<Rightarrow> fl"

record problem =
  loss :: "real list \<Rightarrow> fl"
  z0 :: "real list"
  constraints :: "constraint list"
  bounds :: "(fl \<times> fl) list"

record opt_result =
  res_x :: "fl list"
  success :: bool

type_synonym solver = "problem \<Rightarrow> opt_result"

subsection \<open>Windows and objectives\<close>

text \<open>
  \<open>df.loc[start:end]\<close> on a date index in increasing order: the rows whose date lies
  between the two labels, both included.
\<close>

definition loc_slice :: "(date \<times> 'a) list \<Rightarrow> date \<Rightarrow> date \<Rightarrow> (date \<times> 'a) list" where
  "loc_slice rs a b = filter (\<lambda>(d, r). a \<le> d \<and> d \<le> b) rs"

text \<open>\<open>np.dot(x, z)\<close> for a matrix \<open>x\<close> of shape \<open>(k, m)\<close> and \<open>z\<close> of shape \<open>(m,)\<close>.\<close>

definition np_dot :: "fl list list \<Rightarrow> real list \<Rightarrow> fl list" where
  "np_dot x z = map (\<lambda>r. np_sum (map2 fmul r (map Fin z))) x"

text \<open>
  The target \<open>df_y\<close> is a DataFrame with one column (\<open>__main__\<close> passes
  \<open>returns[["SX5E"]]\<close>, and the standardized estimators call \<open>std_y.iloc[0]\<close>); it is
  represented by its index and the values of that column. Its \<open>.values\<close> has shape
  \<open>(k, 1)\<close>, so numpy broadcasts \<open>np.dot(x, z) - y\<close>, of shapes \<open>(k,)\<close> and
  \<open>(k, 1)\<close>, to the \<open>(k, k)\<close> matrix with entry \<open>dot[b] - y[a]\<close> in row \<open>a\<close>
  and column \<open>b\<close>; \<open>np.sum\<close> adds all entries of its square.
\<close>

definition sq_residuals :: "fl list list \<Rightarrow> fl list \<Rightarrow> real list \<Rightarrow> fl" where
  "sq_residuals x y z =
     np_sum (concat (map (\<lambda>ya. map (\<lambda>db. fmul (fsub db ya) (fsub db ya)) (np_dot x z)) y))"

text \<open>
  \<open>std(axis=0)\<close> of pandas is computed in binary64 arithmetic, and the estimators test
  its result against \<open>0\<close>. Whether the standard deviation of a column comes out as
  exactly \<open>0\<close> depends on the rounding of the intermediate results, which the number
  model above leaves out. The standardized estimators therefore take the function that
  maps a column to its standard deviation as a parameter \<open>std\<close>, as they take the
  optimizer, and the theorems hold for every such function.
\<close>

type_synonym std_fun = "fl list \<Rightarrow> fl"

text \<open>
  For the examples, the standard deviation as pandas computes it. A real number is
  rounded to binary64 by scaling it to a significand between \<open>2^52\<close> and \<open>2^53\<close> and
  rounding that to the nearest integer, the even one in a tie; the range of the exponent
  is not limited. pandas takes the entries that are not \<open>NaN\<close> and returns \<open>NaN\<close> if
  fewer than two are left; otherwise it divides their sum by their number, sums the
  squares of the differences between this mean and the entries, divides by the number
  less one (\<open>ddof=1\<close>) and takes the square root, each operation rounded. numpy adds
  fewer than eight values from left to right, and the examples have three.
\<close>

definition rne :: "real \<Rightarrow> int" where
  "rne q = (let f = \<lfloor>q\<rfloor>; d = q - of_int f
            in if d < 1 / 2 then f else if 1 / 2 < d then f + 1
               else if even f then f else f + 1)"

definition round53 :: "real \<Rightarrow> real" where
  "round53 x = (if x = 0 then 0
                else let s = 2 powr of_int (\<lfloor>log 2 \<bar>x\<bar>\<rfloor> - 52)
                     in of_int (rne (x / s)) * s)"

fun rnd :: "fl \<Rightarrow> fl" where
  "rnd (Fin a) = Fin (round53 a)"
| "rnd v = v"

fun fsqrt :: "fl \<Rightarrow> fl" where
  "fsqrt (Fin a) = (if a < 0 then NaN else Fin (sqrt a))"
| "fsqrt PInf = PInf"
| "fsqrt v = NaN"

definition rsum :: "fl list \<Rightarrow> fl" where
  "rsum vs = foldl (\<lambda>a v. rnd (fadd a v)) (Fin 0) vs"

definition pd_std :: std_fun where
  "pd_std vs =
     (let valid = filter (\<lambda>v. \<not> isnan v) vs;
          c = length valid
      in if c \<le> 1 then NaN
         else let avg = rnd (fdiv (rsum valid) (Fin (real c)))
              in rnd (fsqrt (rnd (fdiv
                   (rsum (map (\<lambda>v. rnd (fmul (rnd (fsub avg v)) (rnd (fsub avg v)))) valid))
                   (Fin (real (c - 1)))))))"

definition replace :: "fl \<Rightarrow> fl \<Rightarrow> fl \<Rightarrow> fl" where
  "replace a b v = (if v = a then b else v)"

text \<open>\<open>x.std(axis=0).replace(0, np.nan)\<close> for a window \<open>x\<close> with \<open>m\<close> columns.\<close>

definition window_std :: "std_fun \<Rightarrow> fl list list \<Rightarrow> nat \<Rightarrow> fl list" where
  "window_std std x m = map (\<lambda>j. replace (Fin 0) NaN (std (map (\<lambda>r. r ! j) x))) [0..<m]"

text \<open>\<open>(x / std_x).replace(np.nan, 0).values\<close>: each row is divided by \<open>std_x\<close>.\<close>

definition standardize :: "fl list list \<Rightarrow> fl list \<Rightarrow> fl list list" where
  "standardize x std_x = map (\<lambda>r. map (replace NaN (Fin 0)) (map2 fdiv r std_x)) x"

text \<open>
  \<open>df_weight.loc[end] = row\<close>: the row with that label is overwritten, or the row is
  appended when the label is new.
\<close>

definition set_row :: "date \<Rightarrow> fl list \<Rightarrow> (date \<times> fl list) list \<Rightarrow> (date \<times> fl list) list" where
  "set_row d r rs =
     (if d \<in> fst ` set rs then map (\<lambda>(d', r'). if d' = d then (d', r) else (d', r')) rs
      else rs @ [(d, r)])"

text \<open>
  The loop over the windows, shared by the three estimators: the body computes the label
  and the row of window \<open>i\<close>, and an exception in one window ends the call.
\<close>

fun run_windows :: "(nat \<Rightarrow> error + date \<times> fl list) \<Rightarrow> nat list \<Rightarrow> (date \<times> fl list) list
    \<Rightarrow> error + (date \<times> fl list) list" where
  "run_windows body [] df_weight = Inr df_weight"
| "run_windows body (i # is) df_weight =
     (case body i of Inl e \<Rightarrow> Inl e
      | Inr (d, r) \<Rightarrow> run_windows body is (set_row d r df_weight))"

subsection \<open>The data of one window\<close>

text \<open>
  Window \<open>i\<close> runs from \<open>start = index[i*frequency]\<close> to
  \<open>end = index[i*frequency + sample_length]\<close>, where \<open>index\<close> is the index of the
  target. \<open>x\<close> and \<open>y\<close> are the rows of the regressors and of the target between
  these two dates.
\<close>

definition window_start :: "series \<Rightarrow> nat \<Rightarrow> nat \<Rightarrow> date" where
  "window_start df_y frequency i = map fst df_y ! (i * frequency)"

definition window_end :: "series \<Rightarrow> nat \<Rightarrow> nat \<Rightarrow> nat \<Rightarrow> date" where
  "window_end df_y sample_length frequency i = map fst df_y ! (i * frequency + sample_length)"

definition window_x :: "series \<Rightarrow> frame \<Rightarrow> nat \<Rightarrow> nat \<Rightarrow> nat \<Rightarrow> fl list list" where
  "window_x df_y df_x sample_length frequency i =
     map snd (loc_slice (rows df_x) (window_start df_y frequency i)
                (window_end df_y sample_length frequency i))"

definition window_y :: "series \<Rightarrow> nat \<Rightarrow> nat \<Rightarrow> nat \<Rightarrow> fl list" where
  "window_y df_y sample_length frequency i =
     map snd (loc_slice df_y (window_start df_y frequency i)
                (window_end df_y sample_length frequency i))"

text \<open>
  The standardized estimators: \<open>std_x = x.std(axis=0).replace(0, np.nan)\<close> and
  \<open>x = (x/std_x).replace(np.nan, 0).values\<close>, and the same for the target, whose
  window is a table with one column.
\<close>

definition ER_std_x :: "std_fun \<Rightarrow> series \<Rightarrow> frame \<Rightarrow> nat \<Rightarrow> nat \<Rightarrow> nat \<Rightarrow> fl list" where
  "ER_std_x std df_y df_x sample_length frequency i =
     window_std std (window_x df_y df_x sample_length frequency i) (length (columns df_x))"

definition ER_x :: "std_fun \<Rightarrow> series \<Rightarrow> frame \<Rightarrow> nat \<Rightarrow> nat \<Rightarrow> nat \<Rightarrow> fl list list" where
  "ER_x std df_y df_x sample_length frequency i =
     standardize (window_x df_y df_x sample_length frequency i)
       (ER_std_x std df_y df_x sample_length frequency i)"

definition ER_std_y :: "std_fun \<Rightarrow> series \<Rightarrow> nat \<Rightarrow> nat \<Rightarrow> nat \<Rightarrow> fl list" where
  "ER_std_y std df_y sample_length frequency i =
     window_std std (map (\<lambda>v. [v]) (window_y df_y sample_length frequency i)) 1"

definition ER_y :: "std_fun \<Rightarrow> series \<Rightarrow> nat \<Rightarrow> nat \<Rightarrow> nat \<Rightarrow> fl list" where
  "ER_y std df_y sample_length frequency i =
     map hd (standardize (map (\<lambda>v. [v]) (window_y df_y sample_length frequency i))
               (ER_std_y std df_y sample_length frequency i))"

subsection \<open>ols_regression\<close>

text \<open>
  \<open>sample_length\<close> and \<open>frequency\<close> are counts and modelled as natural numbers;
  \<open>(n - sample_length)//frequency\<close> raises for \<open>frequency = 0\<close> and is not positive for
  \<open>n \<le> sample_length\<close>, where the loop does not run. Reading the index of the target
  beyond its end raises \<open>IndexError\<close>. The optimizer is taken to return one coefficient
  per entry of the start vector, as SciPy does; a row of another length cannot be stored
  and is the \<open>ValueError\<close> of pandas.
\<close>

definition ols_problem :: "fl list list \<Rightarrow> fl list \<Rightarrow> nat \<Rightarrow> fl \<times> fl \<Rightarrow> fl \<Rightarrow> problem" where
  "ols_problem x y m boundaries weight_sum =
     \<lparr>loss = (\<lambda>z. sq_residuals x y z),
      z0 = replicate m 0,
      constraints = (if \<not> isnan weight_sum
                     then [EqCons (\<lambda>z. fsub (np_sum (map Fin z)) weight_sum)] else []),
      bounds = replicate m boundaries\<rparr>"

text \<open>The result \<open>res\<close> of the optimizer in window \<open>i\<close>.\<close>

definition ols_res :: "solver \<Rightarrow> series \<Rightarrow> frame \<Rightarrow> nat \<Rightarrow> nat \<Rightarrow> fl \<times> fl \<Rightarrow> fl \<Rightarrow> nat
    \<Rightarrow> opt_result" where
  "ols_res minimize df_y df_x sample_length frequency boundaries weight_sum i =
     minimize (ols_problem (window_x df_y df_x sample_length frequency i)
                 (window_y df_y sample_length frequency i)
                 (length (columns df_x)) boundaries weight_sum)"

definition ols_window :: "solver \<Rightarrow> series \<Rightarrow> frame \<Rightarrow> nat \<Rightarrow> nat \<Rightarrow> fl \<times> fl \<Rightarrow> fl \<Rightarrow> nat
    \<Rightarrow> error + date \<times> fl list" where
  "ols_window minimize df_y df_x sample_length frequency boundaries weight_sum i =
     (if length df_y \<le> i * frequency + sample_length then Inl IndexError
      else
        let res = ols_res minimize df_y df_x sample_length frequency boundaries weight_sum i
        in if length (res_x res) \<noteq> length (columns df_x) then Inl ValueError
           else Inr (window_end df_y sample_length frequency i, res_x res))"

definition ols_regression :: "solver \<Rightarrow> series \<Rightarrow> frame \<Rightarrow> nat \<Rightarrow> nat \<Rightarrow> fl \<times> fl \<Rightarrow> fl
    \<Rightarrow> error + frame" where
  "ols_regression minimize df_y df_x sample_length frequency boundaries weight_sum =
     (let n = length (rows df_x)
      in if frequency = 0 then Inl ZeroDivisionError
         else case run_windows
                (ols_window minimize df_y df_x sample_length frequency boundaries weight_sum)
                [0..<(n - sample_length) div frequency] []
              of Inl e \<Rightarrow> Inl e
               | Inr rs \<Rightarrow> Inr \<lparr>columns = columns df_x, rows = rs\<rparr>)"

subsection \<open>ols_regression_ER\<close>

definition ols_ER_problem :: "fl list list \<Rightarrow> fl list \<Rightarrow> nat \<Rightarrow> fl \<times> fl \<Rightarrow> fl \<Rightarrow> problem" where
  "ols_ER_problem x y m boundaries weight_sum =
     \<lparr>loss = (\<lambda>z. sq_residuals x y z),
      z0 = replicate m 0,
      constraints = (if \<not> isnan weight_sum
                     then [EqCons (\<lambda>z. fsub (np_sum (map Fin z)) weight_sum)] else []),
      bounds = replicate m boundaries\<rparr>"

definition ols_ER_res :: "solver \<Rightarrow> std_fun \<Rightarrow> series \<Rightarrow> frame \<Rightarrow> nat \<Rightarrow> nat \<Rightarrow> fl \<times> fl \<Rightarrow> fl \<Rightarrow> nat
    \<Rightarrow> opt_result" where
  "ols_ER_res minimize std df_y df_x sample_length frequency boundaries weight_sum i =
     minimize (ols_ER_problem (ER_x std df_y df_x sample_length frequency i)
                 (ER_y std df_y sample_length frequency i)
                 (length (columns df_x)) boundaries weight_sum)"

text \<open>
  The stored row is \<open>std_y.iloc[0] * res.x / std_x\<close>, evaluated from the left, with the
  standard deviations in which \<open>0\<close> has been replaced by \<open>NaN\<close>.
\<close>

definition ols_ER_window :: "solver \<Rightarrow> std_fun \<Rightarrow> series \<Rightarrow> frame \<Rightarrow> nat \<Rightarrow> nat \<Rightarrow> fl \<times> fl \<Rightarrow> fl \<Rightarrow> nat
    \<Rightarrow> error + date \<times> fl list" where
  "ols_ER_window minimize std df_y df_x sample_length frequency boundaries weight_sum i =
     (if length df_y \<le> i * frequency + sample_length then Inl IndexError
      else
        let res = ols_ER_res minimize std df_y df_x sample_length frequency boundaries weight_sum i
        in if length (res_x res) \<noteq> length (columns df_x) then Inl ValueError
           else Inr (window_end df_y sample_length frequency i,
                     map2 fdiv
                       (map (\<lambda>c. fmul (hd (ER_std_y std df_y sample_length frequency i)) c)
                          (res_x res))
                       (ER_std_x std df_y df_x sample_length frequency i)))"

definition ols_regression_ER :: "solver \<Rightarrow> std_fun \<Rightarrow> series \<Rightarrow> frame \<Rightarrow> nat \<Rightarrow> nat \<Rightarrow> fl \<times> fl \<Rightarrow> fl
    \<Rightarrow> error + frame" where
  "ols_regression_ER minimize std df_y df_x sample_length frequency boundaries weight_sum =
     (let n = length (rows df_x)
      in if frequency = 0 then Inl ZeroDivisionError
         else case run_windows
                (ols_ER_window minimize std df_y df_x sample_length frequency boundaries weight_sum)
                [0..<(n - sample_length) div frequency] []
              of Inl e \<Rightarrow> Inl e
               | Inr rs \<Rightarrow> Inr \<lparr>columns = columns df_x, rows = rs\<rparr>)"

subsection \<open>lasso_regression_ER\<close>

text \<open>
  The penalty is \<open>lambda_ * n * np.sum(np.abs(z))\<close> with \<open>n\<close> the number of rows of
  the whole regressor table.
\<close>

definition lasso_ER_problem :: "fl list list \<Rightarrow> fl list \<Rightarrow> nat \<Rightarrow> nat \<Rightarrow> fl \<Rightarrow> fl \<times> fl \<Rightarrow> fl
    \<Rightarrow> problem" where
  "lasso_ER_problem x y n m lambda' boundaries weight_sum =
     \<lparr>loss = (\<lambda>z. fadd (sq_residuals x y z)
                       (fmul (fmul lambda' (Fin (real n))) (np_sum (map fabs (map Fin z))))),
      z0 = replicate m 0,
      constraints = (if \<not> isnan weight_sum
                     then [EqCons (\<lambda>z. fsub (np_sum (map Fin z)) weight_sum)] else []),
      bounds = replicate m boundaries\<rparr>"

definition lasso_ER_res :: "solver \<Rightarrow> std_fun \<Rightarrow> series \<Rightarrow> frame \<Rightarrow> nat \<Rightarrow> nat \<Rightarrow> fl \<Rightarrow> fl \<times> fl \<Rightarrow> fl
    \<Rightarrow> nat \<Rightarrow> opt_result" where
  "lasso_ER_res minimize std df_y df_x sample_length frequency lambda' boundaries weight_sum i =
     minimize (lasso_ER_problem (ER_x std df_y df_x sample_length frequency i)
                 (ER_y std df_y sample_length frequency i)
                 (length (rows df_x)) (length (columns df_x)) lambda' boundaries weight_sum)"

definition lasso_ER_window :: "solver \<Rightarrow> std_fun \<Rightarrow> series \<Rightarrow> frame \<Rightarrow> nat \<Rightarrow> nat \<Rightarrow> fl \<Rightarrow> fl \<times> fl \<Rightarrow> fl
    \<Rightarrow> nat \<Rightarrow> error + date \<times> fl list" where
  "lasso_ER_window minimize std df_y df_x sample_length frequency lambda' boundaries weight_sum i =
     (if length df_y \<le> i * frequency + sample_length then Inl IndexError
      else
        let res = lasso_ER_res minimize std df_y df_x sample_length frequency lambda' boundaries
                    weight_sum i
        in if length (res_x res) \<noteq> length (columns df_x) then Inl ValueError
           else Inr (window_end df_y sample_length frequency i,
                     map2 fdiv
                       (map (\<lambda>c. fmul (hd (ER_std_y std df_y sample_length frequency i)) c)
                          (res_x res))
                       (ER_std_x std df_y df_x sample_length frequency i)))"

definition lasso_regression_ER :: "solver \<Rightarrow> std_fun \<Rightarrow> series \<Rightarrow> frame \<Rightarrow> nat \<Rightarrow> nat \<Rightarrow> fl \<Rightarrow> fl \<times> fl
    \<Rightarrow> fl \<Rightarrow> error + frame" where
  "lasso_regression_ER minimize std df_y df_x sample_length frequency lambda' boundaries weight_sum =
     (let n = length (rows df_x)
      in if frequency = 0 then Inl ZeroDivisionError
         else case run_windows
                (lasso_ER_window minimize std df_y df_x sample_length frequency lambda' boundaries
                   weight_sum)
                [0..<(n - sample_length) div frequency] []
              of Inl e \<Rightarrow> Inl e
               | Inr rs \<Rightarrow> Inr \<lparr>columns = columns df_x, rows = rs\<rparr>)"

section \<open>Properties of the weight schedules\<close>

text \<open>
  The shape that the spec promises for the weight schedule of an estimator called on a
  target \<open>df_y\<close> and regressors \<open>df_x\<close> with \<open>n\<close> rows: no exception, the columns of
  the regressors, \<open>floor((n - sample_length) / frequency)\<close> rows, keyed by the dates
  \<open>index[i*frequency + sample_length]\<close> in strictly increasing order, one value per
  column in every row.
\<close>

definition schedule_shape :: "series \<Rightarrow> frame \<Rightarrow> nat \<Rightarrow> nat \<Rightarrow> error + frame \<Rightarrow> bool" where
  "schedule_shape df_y df_x sample_length frequency result =
     (case result of Inl e \<Rightarrow> False
      | Inr out \<Rightarrow>
          columns out = columns df_x
          \<and> length (rows out) = (length (rows df_x) - sample_length) div frequency
          \<and> index out = map (\<lambda>i. map fst df_y ! (i * frequency + sample_length))
                           [0..<(length (rows df_x) - sample_length) div frequency]
          \<and> sorted_wrt (<) (index out)
          \<and> list_all (\<lambda>r. length (snd r) = length (columns df_x)) (rows out))"

text \<open>An optimizer that returns the same vectors as \<open>minimize\<close> and reports \<open>flag\<close>.\<close>

definition set_success :: "(problem \<Rightarrow> bool) \<Rightarrow> solver \<Rightarrow> solver" where
  "set_success flag minimize = (\<lambda>p. (minimize p)\<lparr>success := flag p\<rparr>)"

section \<open>Inputs and states of make_track without infinities\<close>

text \<open>
  The tables \<open>make_track\<close> is specified for: both are well formed, their dates are
  strictly increasing, and the weight schedule has the columns of the price table, in the
  same order and without a repeated label.
\<close>

definition track_tables_ok :: "frame \<Rightarrow> frame \<Rightarrow> bool" where
  "track_tables_ok df_price df_weight \<longleftrightarrow>
     wf_frame df_price \<and> wf_frame df_weight
     \<and> sorted_wrt (<) (index df_price) \<and> sorted_wrt (<) (index df_weight)
     \<and> columns df_weight = columns df_price \<and> distinct (columns df_price)"

text \<open>
  The inputs for which the simulation stays free of infinities: such tables with prices
  that are finite and not zero, weights and a transaction cost rate that are finite or
  \<open>NaN\<close>. A price of zero makes a holding infinite, and the difference of two
  infinities is \<open>NaN\<close>.
\<close>

definition track_inputs_ok :: "frame \<Rightarrow> frame \<Rightarrow> fl \<Rightarrow> bool" where
  "track_inputs_ok df_price df_weight tc \<longleftrightarrow>
     track_tables_ok df_price df_weight
     \<and> nonzero_fin_frame df_price \<and> no_inf_frame df_weight \<and> no_inf tc"

text \<open>A state of the loop in which no holding, balance or value is an infinity.\<close>

definition state_no_inf :: "track_state \<Rightarrow> bool" where
  "state_no_inf st \<longleftrightarrow>
     list_all no_inf (shares st) \<and> no_inf (cash st) \<and> list_all no_inf (value_arr st)"

section \<open>Example tables\<close>

text \<open>
  One instrument at a constant price on three dates 360 days apart, and a rate series with
  an observation on a day that is not a date of the price table.
\<close>

definition ex_price :: frame where
  "ex_price = \<lparr>columns = [''A''], rows = [(0, [Fin 100]), (360, [Fin 100]), (720, [Fin 100])]\<rparr>"

definition ex_rate :: series where
  "ex_rate = [(0, Fin (1 / 40)), (100, Fin (1 / 2))]"

text \<open>Two instruments, and a rate series that is zero where it has a value.\<close>

definition ex_price2 :: frame where
  "ex_price2 = \<lparr>columns = [''A'', ''B''],
     rows = [(0, [Fin 100, Fin 8]), (1, [Fin 110, Fin 4]), (4, [Fin 99, Fin 6])]\<rparr>"

definition ex_zero_rate :: series where
  "ex_zero_rate = [(0, Fin 0), (4, Fin 0)]"

text \<open>A rate series that is zero on its only date, the day before the first price.\<close>

definition ex_early_zero_rate :: series where
  "ex_early_zero_rate = [(- 1, Fin 0)]"

text \<open>
  Two instruments on three dates; a schedule with a single row at the first date, and one
  with rows at the first two dates.
\<close>

definition ex_track_price :: frame where
  "ex_track_price = \<lparr>columns = [''A'', ''B''],
     rows = [(0, [Fin 1, Fin 1]), (1, [Fin 2, Fin 1]), (2, [Fin 1, Fin 1])]\<rparr>"

definition ex_one_weight :: frame where
  "ex_one_weight = \<lparr>columns = [''A'', ''B''], rows = [(0, [Fin (1 / 2), Fin (1 / 2)])]\<rparr>"

definition ex_two_weights :: frame where
  "ex_two_weights = \<lparr>columns = [''A'', ''B''],
     rows = [(0, [Fin (1 / 2), Fin (1 / 2)]), (1, [Fin (1 / 4), Fin (3 / 4)])]\<rparr>"

text \<open>
  A target and two regressors on four dates; the second regressor is constant. An
  optimizer that gives up at once: it returns \<open>1/10\<close> for every coefficient and
  reports failure.
\<close>

definition ex_y :: series where
  "ex_y = [(0, Fin 1), (1, Fin 3), (2, Fin 5), (3, Fin 4)]"

definition ex_x :: frame where
  "ex_x = \<lparr>columns = [''A'', ''B''],
     rows = [(0, [Fin 1, Fin 1]), (1, [Fin 3, Fin 1]), (2, [Fin 5, Fin 1]), (3, [Fin 1, Fin 1])]\<rparr>"

definition ex_failing_minimize :: solver where
  "ex_failing_minimize p = \<lparr>res_x = map (\<lambda>c. Fin (1 / 10)) (z0 p), success = False\<rparr>"

text \<open>
  An optimizer that shows whether it was handed a constraint: it returns \<open>1\<close> for every
  coefficient if the list of constraints is empty, and \<open>0\<close> otherwise.
\<close>

definition ex_probe_minimize :: solver where
  "ex_probe_minimize p =
     \<lparr>res_x = map (\<lambda>c. if constraints p = [] then Fin 1 else Fin 0) (z0 p), success = True\<rparr>"

text \<open>
  The binary64 number nearest to \<open>0.1\<close>, regressors whose second column has this value
  on every date, and the standard deviation that pandas computes for three such entries.
\<close>

definition tenth :: real where
  "tenth = 3602879701896397 / 36028797018963968"

definition tenth_std :: real where
  "tenth_std = round53 (sqrt (3 / 2 ^ 113))"

definition ex_x_tenth :: frame where
  "ex_x_tenth = \<lparr>columns = [''A'', ''B''],
     rows = [(0, [Fin 1, Fin tenth]), (1, [Fin 3, Fin tenth]), (2, [Fin 5, Fin tenth]),
             (3, [Fin 1, Fin tenth])]\<rparr>"

section \<open>Arithmetic of the special values\<close>

lemma fadd_zero_right: "fadd v (Fin 0) = v"
  by (cases v) simp_all

lemma fsub_zero_right: "fsub v (Fin 0) = v"
  by (cases v) (simp_all add: fsub_def)

lemma np_sum_Fin: "np_sum (map Fin z) = Fin (sum_list z)"
  by (induction z) simp_all

lemma np_sum_abs_Fin: "np_sum (map (fabs \<circ> Fin) z) = Fin (sum_list (map abs z))"
  by (induction z) simp_all

section \<open>Loops that fill an array from its predecessor entry\<close>

lemma fold_upd_length:
  "length (fold (\<lambda>i xs. xs[i := F i xs]) is xs0) = length xs0"
  by (induction "is" arbitrary: xs0) simp_all

lemma fold_upd_nth_rec:
  assumes "n \<le> length xs0" "1 \<le> i" "i < n"
  shows "fold (\<lambda>i xs. xs[i := F i (xs ! (i - 1))]) [1..<n] xs0 ! i
         = F i (fold (\<lambda>i xs. xs[i := F i (xs ! (i - 1))]) [1..<n] xs0 ! (i - 1))"
  using assms
proof (induction n)
  case 0
  then show ?case by simp
next
  case (Suc n)
  let ?f = "\<lambda>i xs. xs[i := F i (xs ! (i - 1))]"
  let ?xs = "fold ?f [1..<n] xs0"
  have len: "length ?xs = length xs0"
    by (simp add: fold_upd_length)
  show ?case
  proof (cases "n = 0")
    case True
    with Suc.prems show ?thesis by simp
  next
    case False
    then have upt: "[1..<Suc n] = [1..<n] @ [n]" by simp
    have fold_eq: "fold ?f [1..<Suc n] xs0 = ?xs[n := F n (?xs ! (n - 1))]"
      by (subst upt) simp
    show ?thesis
    proof (cases "i = n")
      case True
      with Suc.prems len False show ?thesis by (simp add: fold_eq)
    next
      case False
      with Suc.prems have "i < n" by simp
      with Suc.IH Suc.prems have "?xs ! i = F i (?xs ! (i - 1))" by simp
      with \<open>i < n\<close> Suc.prems show ?thesis by (simp add: fold_eq)
    qed
  qed
qed

lemma ball_set_update: "\<forall>x\<in>set xs. P x \<Longrightarrow> P v \<Longrightarrow> \<forall>x\<in>set (xs[i := v]). P x"
  using set_update_subset_insert [of xs i v] by auto

lemma fold_upd_all:
  assumes "\<forall>x\<in>set xs0. P x" and "\<And>i x. i \<in> set is \<Longrightarrow> P x \<Longrightarrow> P (F i x)"
  shows "\<forall>x\<in>set (fold (\<lambda>i xs. xs[i := F i (xs ! (i - 1))]) is xs0). P x"
  using assms
proof (induction "is" arbitrary: xs0)
  case Nil
  then show ?case by simp
next
  case (Cons i "is")
  have "\<forall>x\<in>set (xs0[i := F i (xs0 ! (i - 1))]). P x"
  proof (cases "i < length xs0")
    case True
    then have "i - 1 < length xs0" by simp
    then have "P (xs0 ! (i - 1))" using Cons.prems by simp
    then have "P (F i (xs0 ! (i - 1)))" using Cons.prems(2) by simp
    with Cons.prems show ?thesis
      using set_update_subset_insert [of xs0 i "F i (xs0 ! (i - 1))"] by auto
  next
    case False
    with Cons.prems show ?thesis by (simp add: list_update_beyond)
  qed
  then show ?case using Cons.IH [of "xs0[i := F i (xs0 ! (i - 1))]"] Cons.prems(2) by simp
qed

lemma fold_upd_nth_0:
  "fold (\<lambda>i xs. xs[i := F i xs]) [1..<n] xs0 ! 0 = xs0 ! 0"
proof (induction n)
  case 0
  then show ?case by simp
next
  case (Suc n)
  show ?case
  proof (cases "n = 0")
    case True
    then show ?thesis by simp
  next
    case False
    then have upt: "[1..<Suc n] = [1..<n] @ [n]" by simp
    show ?thesis using False Suc.IH by (subst upt) simp
  qed
qed

section \<open>The excess-return transform\<close>

lemma length_ffill_from: "length (ffill_from p vs) = length vs"
  by (induction vs arbitrary: p) simp_all

lemma length_ffill: "length (ffill vs) = length vs"
  by (simp add: ffill_def length_ffill_from)

text \<open>
  The forward fill carries the last value forward: an entry that is not \<open>NaN\<close> is
  kept, and a \<open>NaN\<close> entry takes the filled value of its predecessor (\<open>NaN\<close> at the
  start).
\<close>

lemma ffill_from_nth:
  "k < length vs \<Longrightarrow>
   ffill_from p vs ! k
   = (if \<not> isnan (vs ! k) then vs ! k else if k = 0 then p else ffill_from p vs ! (k - 1))"
proof (induction vs arbitrary: p k)
  case Nil
  then show ?case by simp
next
  case (Cons v vs)
  show ?case
  proof (cases k)
    case 0
    then show ?thesis by simp
  next
    case (Suc k')
    with Cons.prems have k': "k' < length vs" by simp
    show ?thesis
    proof (cases k')
      case 0
      with Suc k' Cons.IH [OF k'] show ?thesis by (cases vs) auto
    next
      case (Suc k'')
      with \<open>k = Suc k'\<close> k' Cons.IH [OF k'] show ?thesis by simp
    qed
  qed
qed

lemma ffill_nth:
  "k < length vs \<Longrightarrow>
   ffill vs ! k = (if \<not> isnan (vs ! k) then vs ! k else if k = 0 then NaN else ffill vs ! (k - 1))"
  unfolding ffill_def by (rule ffill_from_nth)

lemma series_loc_zip:
  "distinct ds \<Longrightarrow> length vs = length ds \<Longrightarrow> k < length ds \<Longrightarrow> series_loc (zip ds vs) (ds ! k) = vs ! k"
  by (simp add: series_loc_def map_of_zip_nth)

lemma ER_step_shape:
  "ER_step price rate dates = (\<lambda>i xs. xs[i := (\<lambda>i prev. map2 fmul prev
        (map (\<lambda>q. fsub q (fdiv (fmul (series_loc rate (dates ! (i - 1)))
                                     (Fin (of_int (dates ! i - dates ! (i - 1)))))
                               (Fin 36000)))
             (map2 fdiv (iloc price i) (iloc price (i - 1))))) i (xs ! (i - 1))])"
  by (rule ext, rule ext) (simp add: ER_step_def)


lemma length_ER_loop: "length (ER_loop price rate) = length (rows price)"
  unfolding ER_loop_def ER_step_def Let_def by (simp add: fold_upd_length index_def)

lemma wf_frame_iloc: "wf_frame df \<Longrightarrow> i < length (rows df) \<Longrightarrow> length (iloc df i) = length (columns df)"
  by (simp add: wf_frame_def iloc_def list_all_length)

lemma ER_loop_row_length:
  assumes "wf_frame price"
  shows "\<forall>r\<in>set (ER_loop price rate). length r = length (columns price)"
  unfolding ER_loop_def Let_def ER_step_shape
proof (rule fold_upd_all)
  show "\<forall>r\<in>set ((replicate (length (index price)) (replicate (length (columns price)) NaN))
          [0 := replicate (length (columns price)) (Fin 1)]). length r = length (columns price)"
    by (rule ball_set_update) simp_all
next
  fix i and x :: "fl list"
  assume "i \<in> set [1..<length (index price)]" and "length x = length (columns price)"
  then have "i < length (rows price)" and "i - 1 < length (rows price)" and "length x = length (columns price)"
    by (auto simp: index_def)
  then show "length (map2 fmul x
        (map (\<lambda>q. fsub q (fdiv (fmul (series_loc (zip (index price) (ffill (reindex rate (index price)))) (index price ! (i - 1)))
                                     (Fin (of_int (index price ! i - index price ! (i - 1)))))
                               (Fin 36000)))
             (map2 fdiv (iloc price i) (iloc price (i - 1))))) = length (columns price)"
    using assms by (simp add: wf_frame_iloc)
qed

lemma ER_loop_0:
  assumes "rows price \<noteq> []"
  shows "ER_loop price rate ! 0 = replicate (length (columns price)) (Fin 1)"
  unfolding ER_loop_def ER_step_def Let_def
  using assms by (subst fold_upd_nth_0) (simp add: index_def)

lemma ER_loop_rec:
  assumes "1 \<le> i" "i < length (rows price)" "distinct (index price)"
  shows "ER_loop price rate ! i = map2 fmul (ER_loop price rate ! (i - 1))
        (map (\<lambda>q. fsub q (fdiv (fmul (ffill (reindex rate (index price)) ! (i - 1))
                                     (Fin (of_int (index price ! i - index price ! (i - 1)))))
                               (Fin 36000)))
             (map2 fdiv (iloc price i) (iloc price (i - 1))))"
proof -
  let ?dates = "index price"
  let ?rate = "zip ?dates (ffill (reindex rate ?dates))"
  have len: "length (ffill (reindex rate ?dates)) = length ?dates"
    by (simp add: length_ffill reindex_def)
  have n: "length ?dates = length (rows price)" by (simp add: index_def)
  have "series_loc ?rate (?dates ! (i - 1)) = ffill (reindex rate ?dates) ! (i - 1)"
    using assms len n by (simp add: series_loc_zip)
  moreover have "ER_loop price rate ! i = map2 fmul (ER_loop price rate ! (i - 1))
        (map (\<lambda>q. fsub q (fdiv (fmul (series_loc ?rate (?dates ! (i - 1)))
                                     (Fin (of_int (?dates ! i - ?dates ! (i - 1)))))
                               (Fin 36000)))
             (map2 fdiv (iloc price i) (iloc price (i - 1))))"
    unfolding ER_loop_def Let_def ER_step_shape
    using assms n by (subst fold_upd_nth_rec) simp_all
  ultimately show ?thesis by simp
qed


lemma ER_loop_entry:
  assumes "wf_frame price" "1 \<le> i" "i < length (rows price)" "j < length (columns price)"
  shows "ER_loop price rate ! i ! j = fmul (ER_loop price rate ! (i - 1) ! j)
           (fsub (fdiv (iloc price i ! j) (iloc price (i - 1) ! j))
                 (fdiv (fmul (ffill (reindex rate (index price)) ! (i - 1))
                             (Fin (of_int (index price ! i - index price ! (i - 1)))))
                       (Fin 36000)))"
proof -
  have "ER_loop price rate ! (i - 1) \<in> set (ER_loop price rate)"
    using assms by (simp add: length_ER_loop)
  then have "length (ER_loop price rate ! (i - 1)) = length (columns price)"
    using ER_loop_row_length [OF assms(1)] by blast
  moreover have "length (iloc price i) = length (columns price)"
    and "length (iloc price (i - 1)) = length (columns price)"
    using assms by (simp_all add: wf_frame_iloc)
  moreover have "distinct (index price)" using assms(1) by (simp add: wf_frame_def)
  ultimately show ?thesis
    using assms by (simp add: ER_loop_rec)
qed

lemma make_ER_Inr:
  assumes "rows price \<noteq> []" "distinct (map fst rate)"
  shows "make_ER price rate = Inr \<lparr>columns = columns price, rows = zip (index price) (ER_loop price rate)\<rparr>"
  using assms by (simp add: make_ER_def index_def)

lemma iloc_zip: "length ds = length rs \<Longrightarrow> i < length rs \<Longrightarrow> iloc \<lparr>columns = cs, rows = zip ds rs\<rparr> i = rs ! i"
  by (simp add: iloc_def)

lemma index_zip: "length ds = length rs \<Longrightarrow> index \<lparr>columns = cs, rows = zip ds rs\<rparr> = ds"
  by (simp add: index_def)

text \<open>
  Claim C1, as amended. For every price table with at least one row and every rate series
  (both with unique dates), \<open>make_ER\<close> returns a table with the dates and columns of
  the price table in which, for every date \<open>t\<close> with predecessor \<open>t-1\<close> and every
  column on its own,
  \<open>excess[t] = excess[t-1] * (price[t]/price[t-1] - rate[t-1] * days(t-1,t) / 36000.0)\<close>.
  The divisor is \<open>36000\<close>, so the rate is the annualized short rate quoted in percent
  (\<open>2.5\<close> for 2.5%). The rate is read at the dates of the price table only and
  forward-filled along them: \<open>rate[t-1]\<close> is the rate at the last date of the price
  table up to \<open>t-1\<close> at which the rate series has a value, and \<open>NaN\<close> if there is
  none. \<open>days\<close> is the number of calendar days between the two dates.
\<close>

theorem make_ER_recurrence:
  assumes "wf_frame price" and "distinct (map fst rate)"
    and "1 \<le> i" and "i < length (rows price)" and "j < length (columns price)"
  shows "\<exists>out. make_ER price rate = Inr out \<and> columns out = columns price
           \<and> index out = index price
           \<and> iloc out i ! j = fmul (iloc out (i - 1) ! j)
               (fsub (fdiv (iloc price i ! j) (iloc price (i - 1) ! j))
                     (fdiv (fmul (ffill (reindex rate (index price)) ! (i - 1))
                                 (Fin (of_int (index price ! i - index price ! (i - 1)))))
                           (Fin 36000)))"
proof -
  let ?out = "\<lparr>columns = columns price, rows = zip (index price) (ER_loop price rate)\<rparr>"
  have len: "length (index price) = length (ER_loop price rate)"
    by (simp add: length_ER_loop index_def)
  have "rows price \<noteq> []" using assms(4) by auto
  then have "make_ER price rate = Inr ?out"
    using assms(2) by (rule make_ER_Inr)
  moreover have "index ?out = index price"
    using len by (rule index_zip)
  moreover have "iloc ?out i = ER_loop price rate ! i" and "iloc ?out (i - 1) = ER_loop price rate ! (i - 1)"
    using len assms(4) by (simp_all add: iloc_zip length_ER_loop)
  ultimately show ?thesis
    using ER_loop_entry [OF assms(1,3,4,5)] by simp
qed


text \<open>The recurrence at the third date of the example table.\<close>

theorem make_ER_recurrence_witness:
  "\<exists>out. make_ER ex_price ex_rate = Inr out \<and> columns out = [''A''] \<and> index out = [0, 360, 720]
     \<and> iloc out 2 ! 0 = fmul (iloc out 1 ! 0) (Fin (3999 / 4000))"
  using make_ER_recurrence [of ex_price ex_rate 2 0]
  by (simp add: wf_frame_def ex_price_def ex_rate_def index_def iloc_def reindex_def ffill_def
      series_loc_def isnan_def fsub_def)

text \<open>
  The claim as the spec states it fails on the example. With the rate given as the decimal
  fraction \<open>1/40\<close> and the divisor \<open>360.0\<close> the second value would be
  \<open>1 * (100/100 - (1/40) * 360 / 360) = 39/40\<close>; the code returns \<open>3999/4000\<close>.
  The rate observed on day \<open>100\<close> is the last known rate on day \<open>360\<close>, yet the
  code accrues the third value with the rate of day \<open>0\<close>: the observation is dropped by
  \<open>reindex\<close> before the forward fill.
\<close>

theorem make_ER_spec_formula_counterexample:
  "make_ER ex_price ex_rate
     = Inr \<lparr>columns = [''A''],
            rows = [(0, [Fin 1]), (360, [Fin (3999 / 4000)]), (720, [Fin (15992001 / 16000000)])]\<rparr>
   \<and> Fin (3999 / 4000)
       \<noteq> fmul (Fin 1) (fsub (fdiv (Fin 100) (Fin 100)) (fdiv (fmul (Fin (1 / 40)) (Fin 360)) (Fin 360)))
   \<and> Fin (15992001 / 16000000)
       \<noteq> fmul (Fin (3999 / 4000))
            (fsub (fdiv (Fin 100) (Fin 100)) (fdiv (fmul (Fin (1 / 2)) (Fin 360)) (Fin 36000)))"
  by (simp add: make_ER_def ER_loop_def ER_step_def ex_price_def ex_rate_def index_def iloc_def
      reindex_def ffill_def series_loc_def isnan_def fsub_def)

section \<open>The excess-return transform at a zero rate\<close>

lemma ffill_from_zero:
  "\<forall>v\<in>set vs. v = Fin 0 \<or> v = NaN \<Longrightarrow> ffill_from (Fin 0) vs = replicate (length vs) (Fin 0)"
  by (induction vs) (auto simp: isnan_def)

lemma ffill_zero:
  assumes "vs \<noteq> []" "vs ! 0 = Fin 0" "\<forall>v\<in>set vs. v = Fin 0 \<or> v = NaN"
  shows "ffill vs = replicate (length vs) (Fin 0)"
proof (cases vs)
  case Nil
  with assms show ?thesis by simp
next
  case (Cons v ws)
  with assms have "v = Fin 0" and "\<forall>v\<in>set ws. v = Fin 0 \<or> v = NaN" by simp_all
  with Cons show ?thesis by (simp add: ffill_def isnan_def ffill_from_zero)
qed

lemma ER_loop_zero_rate:
  assumes "wf_frame price"
    and "series_loc rate (index price ! 0) = Fin 0"
    and "\<forall>d\<in>set (index price). series_loc rate d = Fin 0 \<or> series_loc rate d = NaN"
    and "i < length (rows price)" and "j < length (columns price)"
  shows "ER_loop price rate ! i ! j
         = foldl fmul (Fin 1) (map (\<lambda>s. fdiv (iloc price s ! j) (iloc price (s - 1) ! j)) [1..<Suc i])"
  using assms(4)
proof (induction i)
  case 0
  then have "rows price \<noteq> []" by auto
  then show ?case using assms(5) by (simp add: ER_loop_0)
next
  case (Suc i)
  have ne: "index price \<noteq> []" using Suc.prems by (auto simp: index_def)
  have "ffill (reindex rate (index price)) = replicate (length (index price)) (Fin 0)"
    using ffill_zero [of "reindex rate (index price)"] ne assms(2,3)
    by (simp add: reindex_def)
  then have r: "ffill (reindex rate (index price)) ! i = Fin 0"
    using Suc.prems by (simp add: index_def)
  have upt: "[1..<Suc (Suc i)] = [1..<Suc i] @ [Suc i]" by simp
  have "ER_loop price rate ! Suc i ! j
        = fmul (ER_loop price rate ! i ! j) (fdiv (iloc price (Suc i) ! j) (iloc price i ! j))"
    using ER_loop_entry [OF assms(1) _ Suc.prems assms(5), of rate] r
    by (simp add: fsub_zero_right)
  then show ?case
    using Suc.IH Suc.prems by (subst upt) simp
qed

text \<open>
  Claim C9, as amended. If the rate series is zero (at the first date of the price table it is zero,
  and at every other date of the price table it is zero or has no value, so that the
  forward fill gives zero everywhere), then \<open>make_ER\<close>'s output at every date \<open>t\<close>
  and every column is the cumulative product, over the steps \<open>s = 1, ..., t\<close>, of the
  price ratios \<open>price[s]/price[s-1]\<close>, starting from \<open>1.0\<close>.
\<close>

theorem make_ER_zero_rate:
  assumes "wf_frame price" and "distinct (map fst rate)"
    and "series_loc rate (index price ! 0) = Fin 0"
    and "\<forall>d\<in>set (index price). series_loc rate d = Fin 0 \<or> series_loc rate d = NaN"
    and "i < length (rows price)" and "j < length (columns price)"
  shows "\<exists>out. make_ER price rate = Inr out
           \<and> iloc out i ! j
             = foldl fmul (Fin 1)
                 (map (\<lambda>s. fdiv (iloc price s ! j) (iloc price (s - 1) ! j)) [1..<Suc i])"
proof -
  let ?out = "\<lparr>columns = columns price, rows = zip (index price) (ER_loop price rate)\<rparr>"
  have len: "length (index price) = length (ER_loop price rate)"
    by (simp add: length_ER_loop index_def)
  have "rows price \<noteq> []" using assms(5) by auto
  then have "make_ER price rate = Inr ?out"
    using assms(2) by (rule make_ER_Inr)
  moreover have "iloc ?out i = ER_loop price rate ! i"
    using len assms(5) by (simp add: iloc_zip length_ER_loop)
  ultimately show ?thesis
    using ER_loop_zero_rate [OF assms(1,3,4,5,6)] by simp
qed

text \<open>In the second example, column \<open>B\<close> at the third date: \<open>(4/8) * (6/4) = 3/4\<close>.\<close>

theorem make_ER_zero_rate_witness:
  "\<exists>out. make_ER ex_price2 ex_zero_rate = Inr out \<and> iloc out 2 ! 1 = Fin (3 / 4)"
  using make_ER_zero_rate [of ex_price2 ex_zero_rate 2 1]
  by (simp add: wf_frame_def ex_price2_def ex_zero_rate_def index_def iloc_def series_loc_def upt_rec)

text \<open>
  The claim as the spec states it fails when the rate series has no value at the first
  date of the price table: there the forward fill has nothing to carry, the rate read at
  the first date is \<open>NaN\<close>, and so is the output from the second row on, whereas the
  first price ratio of column \<open>A\<close> is \<open>110/100\<close>.
\<close>

theorem make_ER_early_rate_counterexample:
  "make_ER ex_price2 ex_early_zero_rate
     = Inr \<lparr>columns = [''A'', ''B''],
            rows = [(0, [Fin 1, Fin 1]), (1, [NaN, NaN]), (4, [NaN, NaN])]\<rparr>
   \<and> iloc ex_price2 1 = [Fin 110, Fin 4] \<and> iloc ex_price2 0 = [Fin 100, Fin 8]
   \<and> fmul (Fin 1) (fdiv (Fin 110) (Fin 100)) = Fin (11 / 10)"
  by (simp add: make_ER_def ER_loop_def ER_step_def ex_price2_def ex_early_zero_rate_def
      index_def iloc_def reindex_def ffill_def series_loc_def fsub_def upt_rec)

section \<open>The track simulator: the loop\<close>

lemma track_run_0: "track_run p w tc 0 = track_init p w"
  by (simp add: track_run_def)

lemma track_run_1: "track_run p w tc (Suc 0) = track_init p w"
  by (simp add: track_run_def)

lemma track_run_Suc:
  "1 \<le> i \<Longrightarrow> track_run p w tc (Suc i) = track_step p w tc i (track_run p w tc i)"
proof -
  assume "1 \<le> i"
  then have "[1..<Suc i] = [1..<i] @ [i]" by simp
  then show ?thesis by (simp add: track_run_def)
qed

lemma length_value_step: "length (value_arr (track_step p w tc i st)) = length (value_arr st)"
  by (simp add: track_step_def Let_def)

lemma length_value_run: "length (value_arr (track_run p w tc k)) = length (rows p)"
proof (induction k)
  case 0
  show ?case by (simp add: track_run_0 track_init_def Let_def index_def)
next
  case (Suc k)
  then show ?case
    by (cases "k = 0") (simp_all add: track_run_0 track_run_1 track_run_Suc length_value_step)
qed

lemma value_step_other: "j \<noteq> i \<Longrightarrow> value_arr (track_step p w tc i st) ! j = value_arr st ! j"
  by (simp add: track_step_def Let_def)

lemma value_run_stable:
  "j < k \<Longrightarrow> k \<le> k' \<Longrightarrow> value_arr (track_run p w tc k') ! j = value_arr (track_run p w tc k) ! j"
proof (induction k')
  case 0
  then show ?case by simp
next
  case (Suc k')
  show ?case
  proof (cases "k = Suc k'")
    case True
    then show ?thesis by simp
  next
    case False
    with Suc.prems have le: "k \<le> k'" and "j < k'" and "1 \<le> k'" by simp_all
    then have "value_arr (track_run p w tc (Suc k')) ! j = value_arr (track_run p w tc k') ! j"
      by (simp add: track_run_Suc value_step_other)
    with Suc.IH Suc.prems(1) le show ?thesis by simp
  qed
qed

lemma loc_index:
  "distinct (index df) \<Longrightarrow> i < length (rows df) \<Longrightarrow> loc df (index df ! i) = iloc df i"
proof -
  assume d: "distinct (index df)" and i: "i < length (rows df)"
  have "map_of (rows df) (fst (rows df ! i)) = Some (snd (rows df ! i))"
    using d i by (simp add: index_def)
  then show ?thesis using i by (simp add: loc_def iloc_def index_def)
qed

lemma make_track_Inr:
  "rows p \<noteq> [] \<Longrightarrow> make_track p w tc = Inr \<lparr>columns = [''Track''],
     rows = zip (index p) (map (\<lambda>v. [v]) (value_arr (track_run p w tc (length (rows p)))))\<rparr>"
  by (simp add: make_track_def Let_def index_def)

lemma make_track_iloc:
  assumes "i < length (rows p)"
  shows "iloc \<lparr>columns = [''Track''],
     rows = zip (index p) (map (\<lambda>v. [v]) (value_arr (track_run p w tc (length (rows p)))))\<rparr> i
     = [value_arr (track_run p w tc (Suc i)) ! i]"
proof -
  let ?vs = "value_arr (track_run p w tc (length (rows p)))"
  have len: "length ?vs = length (rows p)" by (rule length_value_run)
  have "iloc \<lparr>columns = [''Track''], rows = zip (index p) (map (\<lambda>v. [v]) ?vs)\<rparr> i = [?vs ! i]"
    using assms len by (simp add: iloc_def index_def)
  also have "?vs ! i = value_arr (track_run p w tc (Suc i)) ! i"
    using assms by (intro value_run_stable) simp_all
  finally show ?thesis .
qed

section \<open>Values without infinities\<close>

lemma no_inf_fmul: "no_inf a \<Longrightarrow> no_inf b \<Longrightarrow> no_inf (fmul a b)"
  by (cases a; cases b) simp_all

lemma no_inf_fadd: "no_inf a \<Longrightarrow> no_inf b \<Longrightarrow> no_inf (fadd a b)"
  by (cases a; cases b) simp_all

lemma no_inf_fsub: "no_inf a \<Longrightarrow> no_inf b \<Longrightarrow> no_inf (fsub a b)"
  by (cases a; cases b) (simp_all add: fsub_def)

lemma no_inf_fabs: "no_inf a \<Longrightarrow> no_inf (fabs a)"
  by (cases a) simp_all

lemma no_inf_fdiv: "no_inf a \<Longrightarrow> nonzero_fin b \<or> b = NaN \<Longrightarrow> no_inf (fdiv a b)"
  by (cases a; cases b) auto

lemma is_fin_no_inf: "is_fin a \<Longrightarrow> no_inf a"
  by (cases a) simp_all

lemma fmul_zero_no_inf: "no_inf (fmul (Fin 0) b)"
  by (cases b) (simp_all add: signed_inf_def)

lemma is_fin_np_sum: "list_all is_fin vs \<Longrightarrow> is_fin (np_sum vs)"
proof (induction vs)
  case Nil
  show ?case by simp
next
  case (Cons v vs)
  then obtain a b where "v = Fin a" and "np_sum vs = Fin b"
    by (cases v; cases "np_sum vs") simp_all
  then show ?case by simp
qed

lemma is_fin_pd_sum: "list_all no_inf vs \<Longrightarrow> is_fin (pd_sum vs)"
proof -
  assume a: "list_all no_inf vs"
  have "list_all is_fin (filter (\<lambda>v. \<not> isnan v) vs)"
    unfolding list_all_iff
  proof
    fix v assume "v \<in> set (filter (\<lambda>v. \<not> isnan v) vs)"
    then have "no_inf v" and "v \<noteq> NaN" using a by (auto simp: list_all_iff isnan_def)
    then show "is_fin v" by (cases v) simp_all
  qed
  then show ?thesis unfolding pd_sum_def by (rule is_fin_np_sum)
qed

lemma fadd_fsub_cancel: "is_fin s \<Longrightarrow> fadd s (fsub v s) = v"
  by (cases s; cases v) (simp_all add: fsub_def)

lemma list_all_map2:
  assumes "list_all P xs" "list_all Q ys" "\<And>x y. P x \<Longrightarrow> Q y \<Longrightarrow> R (f x y)"
  shows "list_all R (map2 f xs ys)"
  using assms(1,2)
proof (induction xs arbitrary: ys)
  case Nil
  show ?case by simp
next
  case (Cons x xs)
  then show ?case by (cases ys) (simp_all add: assms(3))
qed

lemma no_inf_cost:
  assumes "no_inf tc" "no_inf v" "list_all no_inf hs" "list_all no_inf w"
  shows "no_inf (fmul (fmul tc v)
            (pd_sum (map fabs (map2 fsub w (map (\<lambda>h. fdiv h v) hs)))))"
proof (cases v)
  case (Fin a)
  show ?thesis
  proof (cases "a = 0")
    case True
    then have "fmul tc v = Fin 0 \<or> fmul tc v = NaN"
      using Fin assms(1) by (cases tc) simp_all
    then show ?thesis by (auto simp: fmul_zero_no_inf)
  next
    case False
    then have "nonzero_fin v \<or> v = NaN" using Fin by simp
    then have "list_all no_inf (map (\<lambda>h. fdiv h v) hs)"
      using assms(3) by (simp add: list_all_iff no_inf_fdiv)
    with assms(4) have "list_all no_inf (map2 fsub w (map (\<lambda>h. fdiv h v) hs))"
      by (rule list_all_map2) (rule no_inf_fsub)
    then have "list_all no_inf (map fabs (map2 fsub w (map (\<lambda>h. fdiv h v) hs)))"
      by (simp add: list_all_iff no_inf_fabs)
    then have "no_inf (pd_sum (map fabs (map2 fsub w (map (\<lambda>h. fdiv h v) hs))))"
      by (intro is_fin_no_inf is_fin_pd_sum)
    moreover have "no_inf (fmul tc v)" using assms(1,2) by (rule no_inf_fmul)
    ultimately show ?thesis by (rule no_inf_fmul [rotated])
  qed
next
  case NaN
  then have "fmul tc v = NaN" by (cases tc) simp_all
  then show ?thesis by simp
qed (use assms(2) in simp_all)

lemma nonzero_fin_no_inf: "nonzero_fin v \<Longrightarrow> no_inf v"
  by (cases v) simp_all

lemma loc_cases: "loc df d \<in> snd ` set (rows df) \<or> loc df d = replicate (length (columns df)) NaN"
proof (cases "map_of (rows df) d")
  case None
  then show ?thesis by (simp add: loc_def)
next
  case (Some r)
  then have "(d, r) \<in> set (rows df)" by (rule map_of_SomeD)
  then have "r \<in> snd ` set (rows df)" by force
  with Some show ?thesis by (simp add: loc_def)
qed

lemma loc_no_inf: "no_inf_frame df \<Longrightarrow> list_all no_inf (loc df d)"
  using loc_cases [of df d] by (auto simp: no_inf_frame_def list_all_iff)

lemma loc_price: "nonzero_fin_frame df \<Longrightarrow> list_all (\<lambda>v. nonzero_fin v \<or> v = NaN) (loc df d)"
  using loc_cases [of df d] by (auto simp: nonzero_fin_frame_def list_all_iff)

lemma iloc_price:
  "nonzero_fin_frame df \<Longrightarrow> i < length (rows df) \<Longrightarrow> list_all nonzero_fin (iloc df i)"
  by (simp add: nonzero_fin_frame_def iloc_def list_all_length)

lemma no_inf_holdings_value:
  assumes "list_all no_inf hs" "list_all (\<lambda>v. nonzero_fin v \<or> v = NaN) ps"
  shows "list_all no_inf (map2 fmul hs ps)"
  using assms by (rule list_all_map2) (auto intro: no_inf_fmul nonzero_fin_no_inf)

lemma no_inf_new_shares:
  assumes "list_all no_inf w" "no_inf v" "list_all (\<lambda>v. nonzero_fin v \<or> v = NaN) ps"
  shows "list_all no_inf (map2 fdiv (map (\<lambda>x. fmul x v) w) ps)"
proof -
  have "list_all no_inf (map (\<lambda>x. fmul x v) w)"
    using assms(1,2) by (simp add: list_all_iff no_inf_fmul)
  then show ?thesis using assms(3) by (rule list_all_map2) (rule no_inf_fdiv)
qed

lemma iloc_price_weak:
  "nonzero_fin_frame df \<Longrightarrow> i < length (rows df)
   \<Longrightarrow> list_all (\<lambda>v. nonzero_fin v \<or> v = NaN) (iloc df i)"
  using iloc_price [of df i] by (simp add: list_all_iff)

lemma init_no_inf:
  assumes "track_inputs_ok p w tc" "rows p \<noteq> []"
  shows "state_no_inf (track_init p w)"
proof -
  let ?d0 = "first_label w p"
  let ?sh = "map2 fdiv (loc w ?d0) (loc p ?d0)"
  have "list_all no_inf (loc w ?d0)" and "list_all (\<lambda>v. nonzero_fin v \<or> v = NaN) (loc p ?d0)"
    using assms by (simp_all add: track_inputs_ok_def track_tables_ok_def loc_no_inf loc_price)
  then have sh: "list_all no_inf ?sh"
    by (rule list_all_map2) (rule no_inf_fdiv)
  have "list_all (\<lambda>v. nonzero_fin v \<or> v = NaN) (iloc p 0)"
    using assms by (simp add: track_inputs_ok_def track_tables_ok_def iloc_price_weak)
  with sh have "list_all no_inf (map2 fmul ?sh (iloc p 0))"
    by (rule no_inf_holdings_value)
  then have "no_inf (pd_sum (map2 fmul ?sh (iloc p 0)))"
    by (intro is_fin_no_inf is_fin_pd_sum)
  then have "no_inf (fsub (Fin 1) (pd_sum (map2 fmul ?sh (iloc p 0))))"
    by (intro no_inf_fsub) simp_all
  with sh show ?thesis
    by (simp add: state_no_inf_def track_init_def Let_def list_all_iff)
qed

text \<open>What one iteration of the loop writes, in each of its two branches.\<close>

lemma step_rebalance:
  fixes tc :: fl
  assumes "index p ! (i - 1) \<in> set (index w)" and "i < length (value_arr st)"
  defines "ws \<equiv> loc w (index p ! (i - 1))"
    and "v_prev \<equiv> value_arr st ! (i - 1)"
  defines "cost \<equiv> fmul (fmul tc v_prev)
             (pd_sum (map fabs (map2 fsub ws
                (map (\<lambda>h. fdiv h v_prev) (map2 fmul (shares st) (loc p (index p ! (i - 1))))))))"
  defines "v \<equiv> fadd (fsub (pd_sum (map2 fmul (shares st) (loc p (index p ! i)))) cost) (cash st)"
  shows "value_arr (track_step p w tc i st) ! i = v"
    and "shares (track_step p w tc i st) = map2 fdiv (map (\<lambda>x. fmul x v) ws) (loc p (index p ! i))"
    and "cash (track_step p w tc i st)
         = fsub v (pd_sum (map2 fmul (shares (track_step p w tc i st)) (loc p (index p ! i))))"
  using assms(1,2) unfolding ws_def v_prev_def cost_def v_def
  by (simp_all add: track_step_def Let_def)

lemma step_mark_to_market:
  assumes "index p ! (i - 1) \<notin> set (index w)" and "i < length (value_arr st)"
  shows "value_arr (track_step p w tc i st) ! i
         = fadd (pd_sum (map2 fmul (shares st) (loc p (index p ! i)))) (cash st)"
    and "shares (track_step p w tc i st) = shares st"
    and "cash (track_step p w tc i st) = cash st"
  using assms by (simp_all add: track_step_def Let_def)

lemma step_no_inf:
  assumes ok: "track_inputs_ok p w tc" and st: "state_no_inf st"
    and i: "1 \<le> i" "i < length (value_arr st)"
  shows "state_no_inf (track_step p w tc i st)"
proof -
  have sh: "list_all no_inf (shares st)" and c: "no_inf (cash st)"
    and vs: "list_all no_inf (value_arr st)"
    using st by (simp_all add: state_no_inf_def)
  have pr: "\<And>d. list_all (\<lambda>v. nonzero_fin v \<or> v = NaN) (loc p d)"
    using ok by (simp add: track_inputs_ok_def track_tables_ok_def loc_price)
  have s_fin: "\<And>d. no_inf (pd_sum (map2 fmul (shares st) (loc p d)))"
    using sh pr by (intro is_fin_no_inf is_fin_pd_sum no_inf_holdings_value)
  show ?thesis
  proof (cases "index p ! (i - 1) \<in> set (index w)")
    case False
    have "no_inf (fadd (pd_sum (map2 fmul (shares st) (loc p (index p ! i)))) (cash st))"
      using s_fin c by (rule no_inf_fadd)
    moreover have "value_arr (track_step p w tc i st) = (value_arr st)
        [i := fadd (pd_sum (map2 fmul (shares st) (loc p (index p ! i)))) (cash st)]"
      using False by (simp add: track_step_def Let_def)
    ultimately have "list_all no_inf (value_arr (track_step p w tc i st))"
      using vs ball_set_update [of "value_arr st" no_inf] by (simp add: list_all_iff)
    moreover have "shares (track_step p w tc i st) = shares st"
      and "cash (track_step p w tc i st) = cash st"
      using False i(2) by (rule step_mark_to_market(2), rule step_mark_to_market(3))
    ultimately show ?thesis
      using sh c by (simp add: state_no_inf_def)
  next
    case True
    let ?ws = "loc w (index p ! (i - 1))"
    let ?v_prev = "value_arr st ! (i - 1)"
    let ?cost = "fmul (fmul tc ?v_prev)
             (pd_sum (map fabs (map2 fsub ?ws
                (map (\<lambda>h. fdiv h ?v_prev) (map2 fmul (shares st) (loc p (index p ! (i - 1))))))))"
    let ?v = "fadd (fsub (pd_sum (map2 fmul (shares st) (loc p (index p ! i)))) ?cost) (cash st)"
    let ?st = "track_step p w tc i st"
    have w: "list_all no_inf ?ws" using ok by (simp add: track_inputs_ok_def track_tables_ok_def loc_no_inf)
    have "i - 1 < length (value_arr st)" using i by simp
    then have vp: "no_inf ?v_prev" using vs by (simp add: list_all_length)
    have "list_all no_inf (map2 fmul (shares st) (loc p (index p ! (i - 1))))"
      using sh pr by (rule no_inf_holdings_value)
    then have "no_inf ?cost"
      using ok vp w by (intro no_inf_cost) (simp_all add: track_inputs_ok_def track_tables_ok_def)
    then have v: "no_inf ?v"
      using s_fin c by (intro no_inf_fadd no_inf_fsub)
    have "list_all no_inf (map2 fdiv (map (\<lambda>x. fmul x ?v) ?ws) (loc p (index p ! i)))"
      using w v pr by (rule no_inf_new_shares)
    then have sh': "list_all no_inf (shares ?st)"
      by (simp only: step_rebalance(2) [OF True i(2)])
    then have "no_inf (pd_sum (map2 fmul (shares ?st) (loc p (index p ! i))))"
      using pr by (intro is_fin_no_inf is_fin_pd_sum no_inf_holdings_value)
    with v have "no_inf (fsub ?v (pd_sum (map2 fmul (shares ?st) (loc p (index p ! i)))))"
      by (rule no_inf_fsub)
    then have c': "no_inf (cash ?st)"
      by (simp only: step_rebalance(3) [OF True i(2)])
    have "value_arr ?st = (value_arr st)[i := ?v]"
      using True by (simp add: track_step_def Let_def)
    then have "list_all no_inf (value_arr ?st)"
      using vs v ball_set_update [of "value_arr st" no_inf ?v i] by (simp add: list_all_iff)
    with sh' c' show ?thesis by (simp add: state_no_inf_def)
  qed
qed

lemma run_no_inf:
  assumes "track_inputs_ok p w tc" "rows p \<noteq> []" "k \<le> length (rows p)"
  shows "state_no_inf (track_run p w tc k)"
  using assms(3)
proof (induction k)
  case 0
  show ?case using assms(1,2) by (simp add: track_run_0 init_no_inf)
next
  case (Suc k)
  show ?case
  proof (cases "k = 0")
    case True
    then show ?thesis using assms(1,2) by (simp add: track_run_1 init_no_inf)
  next
    case False
    then have "1 \<le> k" by simp
    moreover have "k < length (value_arr (track_run p w tc k))"
      using Suc.prems by (simp add: length_value_run)
    moreover have "state_no_inf (track_run p w tc k)" using Suc by simp
    ultimately show ?thesis
      using assms(1) by (simp add: track_run_Suc step_no_inf)
  qed
qed

lemma init_value_identity:
  assumes "track_inputs_ok p w tc" "rows p \<noteq> []"
  shows "value_arr (track_init p w) ! 0
         = fadd (pd_sum (map2 fmul (shares (track_init p w)) (iloc p 0))) (cash (track_init p w))"
proof -
  let ?st = "track_init p w"
  let ?s = "pd_sum (map2 fmul (shares ?st) (iloc p 0))"
  have "list_all no_inf (shares ?st)"
    using init_no_inf [OF assms] by (simp add: state_no_inf_def)
  moreover have "list_all (\<lambda>v. nonzero_fin v \<or> v = NaN) (iloc p 0)"
    using assms by (simp add: track_inputs_ok_def track_tables_ok_def iloc_price_weak)
  ultimately have "is_fin ?s"
    by (intro is_fin_pd_sum no_inf_holdings_value)
  then have "fadd ?s (fsub (Fin 1) ?s) = Fin 1" by (rule fadd_fsub_cancel)
  moreover have "cash ?st = fsub (Fin 1) ?s"
    by (simp add: track_init_def Let_def)
  moreover have "value_arr ?st ! 0 = Fin 1"
    using assms(2) by (simp add: track_init_def Let_def index_def)
  ultimately show ?thesis by simp
qed

lemma run_value_identity:
  assumes ok: "track_inputs_ok p w tc" and i: "i < length (rows p)"
  shows "value_arr (track_run p w tc (Suc i)) ! i
         = fadd (pd_sum (map2 fmul (shares (track_run p w tc (Suc i))) (iloc p i)))
                (cash (track_run p w tc (Suc i)))"
proof (cases "i = 0")
  case True
  have "rows p \<noteq> []" using i by auto
  with ok show ?thesis unfolding True track_run_1 by (rule init_value_identity)
next
  case False
  then have i1: "1 \<le> i" by simp
  let ?st = "track_run p w tc i"
  let ?st' = "track_step p w tc i ?st"
  have run: "track_run p w tc (Suc i) = ?st'" using i1 by (rule track_run_Suc)
  have len: "i < length (value_arr ?st)" using i by (simp add: length_value_run)
  have "distinct (index p)" using ok by (simp add: track_inputs_ok_def track_tables_ok_def wf_frame_def)
  then have loc: "loc p (index p ! i) = iloc p i" using i by (rule loc_index)
  show ?thesis
  proof (cases "index p ! (i - 1) \<in> set (index w)")
    case False
    then show ?thesis
      using len unfolding run by (simp add: step_mark_to_market loc)
  next
    case True
    let ?s = "pd_sum (map2 fmul (shares ?st') (iloc p i))"
    have "rows p \<noteq> []" using i by auto
    then have "state_no_inf ?st'"
      using run_no_inf [OF ok, of "Suc i"] i by (simp add: run)
    then have "list_all no_inf (shares ?st')" by (simp add: state_no_inf_def)
    moreover have "list_all (\<lambda>v. nonzero_fin v \<or> v = NaN) (iloc p i)"
      using ok i by (simp add: track_inputs_ok_def track_tables_ok_def iloc_price_weak)
    ultimately have "is_fin ?s"
      by (intro is_fin_pd_sum no_inf_holdings_value)
    then have "fadd ?s (fsub (value_arr ?st' ! i) ?s) = value_arr ?st' ! i"
      by (rule fadd_fsub_cancel)
    moreover have "cash ?st' = fsub (value_arr ?st' ! i) ?s"
      using step_rebalance(1,3) [OF True len, of tc] by (simp add: loc)
    ultimately show ?thesis unfolding run by simp
  qed
qed

text \<open>
  Claim C10. Let the price table and the weight schedule have strictly increasing dates,
  the same column labels in the same order, none repeated, and one value per column in
  every row; let the prices be finite and not zero, and the weights and the transaction
  cost rate be free of infinities. Then \<open>make_track\<close>
  returns a track, and at every date \<open>i\<close>, the first included, the value it
  reports is \<open>sum(shares * price[i]) + cash\<close> for the share holdings and the cash
  balance in effect when the loop has processed date \<open>i\<close>: after the initialization,
  after the rebalancing branch and after the mark-to-market branch alike. (Where the track
  value has become \<open>NaN\<close>, both sides are \<open>NaN\<close>.)
\<close>

theorem track_accounting_invariant:
  assumes "track_inputs_ok df_price df_weight tc" and "i < length (rows df_price)"
  shows "\<exists>out. make_track df_price df_weight tc = Inr out
           \<and> index out = index df_price
           \<and> iloc out i
             = [fadd (pd_sum (map2 fmul (shares (track_run df_price df_weight tc (Suc i)))
                                        (iloc df_price i)))
                     (cash (track_run df_price df_weight tc (Suc i)))]"
proof -
  let ?out = "\<lparr>columns = [''Track''], rows = zip (index df_price)
     (map (\<lambda>v. [v]) (value_arr (track_run df_price df_weight tc (length (rows df_price)))))\<rparr>"
  have "rows df_price \<noteq> []" using assms(2) by auto
  then have "make_track df_price df_weight tc = Inr ?out" by (rule make_track_Inr)
  moreover have "index ?out = index df_price"
    by (simp add: index_def length_value_run)
  moreover have "iloc ?out i = [value_arr (track_run df_price df_weight tc (Suc i)) ! i]"
    using assms(2) by (rule make_track_iloc)
  ultimately show ?thesis
    using run_value_identity [OF assms] by simp
qed

text \<open>
  Claim C2. Let the price table and the weight schedule have strictly increasing dates,
  the same column labels in the same order, none repeated, and one value per column in
  every row. For every date \<open>t\<close> (position \<open>i\<close>) whose predecessor is a
  rebalancing date, with \<open>before\<close> the holdings and cash when the loop reaches \<open>i\<close>
  and \<open>after\<close> those when it has processed \<open>i\<close>: the cost is
  \<open>tc * value[t-1] * sum |target_weight[t-1] - (shares * price[t-1]) / value[t-1]|\<close>,
  the value reported at \<open>t\<close> is \<open>sum(shares * price[t]) - cost + cash\<close> with the
  holdings and cash from before the rebalancing, the new shares are
  \<open>target_weight[t-1] * value[t] / price[t]\<close> and the new cash is
  \<open>value[t] - sum(new_shares * price[t])\<close>.
\<close>

theorem track_rebalance_step:
  fixes tc :: fl
  assumes "track_tables_ok df_price df_weight" and "1 \<le> i" and "i < length (rows df_price)"
    and "index df_price ! (i - 1) \<in> set (index df_weight)"
  defines "before \<equiv> track_run df_price df_weight tc i"
    and "after \<equiv> track_run df_price df_weight tc (Suc i)"
  defines "target \<equiv> loc df_weight (index df_price ! (i - 1))"
    and "v_prev \<equiv> value_arr before ! (i - 1)"
  defines "cost \<equiv> fmul (fmul tc v_prev)
             (pd_sum (map fabs (map2 fsub target
                (map (\<lambda>h. fdiv h v_prev) (map2 fmul (shares before) (iloc df_price (i - 1)))))))"
  defines "v \<equiv> fadd (fsub (pd_sum (map2 fmul (shares before) (iloc df_price i))) cost) (cash before)"
  shows "\<exists>out. make_track df_price df_weight tc = Inr out
           \<and> iloc out (i - 1) = [v_prev] \<and> iloc out i = [v]
           \<and> shares after = map2 fdiv (map (\<lambda>x. fmul x v) target) (iloc df_price i)
           \<and> cash after = fsub v (pd_sum (map2 fmul (shares after) (iloc df_price i)))"
proof -
  let ?out = "\<lparr>columns = [''Track''], rows = zip (index df_price)
     (map (\<lambda>v. [v]) (value_arr (track_run df_price df_weight tc (length (rows df_price)))))\<rparr>"
  have "rows df_price \<noteq> []" using assms(3) by auto
  then have out: "make_track df_price df_weight tc = Inr ?out" by (rule make_track_Inr)
  have run: "after = track_step df_price df_weight tc i before"
    unfolding after_def before_def using assms(2) by (rule track_run_Suc)
  have len: "i < length (value_arr before)"
    using assms(3) by (simp add: before_def length_value_run)
  have dist: "distinct (index df_price)"
    using assms(1) by (simp add: track_tables_ok_def wf_frame_def)
  have loc: "loc df_price (index df_price ! i) = iloc df_price i"
    using dist assms(3) by (rule loc_index)
  have "i - 1 < length (rows df_price)" using assms(3) by simp
  with dist have loc': "loc df_price (index df_price ! (i - 1)) = iloc df_price (i - 1)"
    by (rule loc_index)
  have "iloc ?out i = [value_arr after ! i]"
    unfolding after_def using assms(3) by (rule make_track_iloc)
  moreover have "value_arr after ! i = v"
    unfolding run v_def cost_def v_prev_def target_def
    using step_rebalance(1) [OF assms(4) len, of tc] loc loc' by simp
  moreover have "iloc ?out (i - 1) = [value_arr (track_run df_price df_weight tc (Suc (i - 1))) ! (i - 1)]"
    using \<open>i - 1 < length (rows df_price)\<close> by (rule make_track_iloc)
  moreover have "track_run df_price df_weight tc (Suc (i - 1)) = before"
    using assms(2) by (simp add: before_def)
  moreover have "shares after = map2 fdiv (map (\<lambda>x. fmul x v) target) (iloc df_price i)"
    unfolding run v_def cost_def v_prev_def target_def
    using step_rebalance(2) [OF assms(4) len, of tc] loc loc' by simp
  moreover have "cash after = fsub v (pd_sum (map2 fmul (shares after) (iloc df_price i)))"
    unfolding run v_def cost_def v_prev_def target_def
    using step_rebalance(3) [OF assms(4) len, of tc] step_rebalance(1) [OF assms(4) len, of tc]
      loc loc' by simp
  ultimately show ?thesis using out unfolding v_prev_def by simp
qed

section \<open>A weight schedule with one row\<close>

lemma pd_sum_zero: "list_all (\<lambda>v. v = Fin 0 \<or> v = NaN) vs \<Longrightarrow> pd_sum vs = Fin 0"
  by (induction vs) (auto simp: pd_sum_def isnan_def)

lemma fdiv_one: "fdiv h (Fin 1) = h"
  by (cases h) simp_all

lemma turnover_entry_zero:
  assumes "no_inf a" "nonzero_fin b"
  shows "fabs (fsub a (fdiv (fmul (fdiv a b) b) (Fin 1))) = Fin 0
         \<or> fabs (fsub a (fdiv (fmul (fdiv a b) b) (Fin 1))) = NaN"
  using assms by (cases a; cases b) (simp_all add: fsub_def)

lemma turnover_zero:
  assumes "list_all no_inf ws" "list_all nonzero_fin ps"
  shows "pd_sum (map fabs (map2 fsub ws
            (map (\<lambda>h. fdiv h (Fin 1)) (map2 fmul (map2 fdiv ws ps) ps)))) = Fin 0"
proof -
  have "list_all (\<lambda>v. v = Fin 0 \<or> v = NaN) (map fabs (map2 fsub ws
            (map (\<lambda>h. fdiv h (Fin 1)) (map2 fmul (map2 fdiv ws ps) ps))))"
    using assms
  proof (induction ws arbitrary: ps)
    case Nil
    show ?case by simp
  next
    case (Cons a ws)
    show ?case
    proof (cases ps)
      case Nil
      then show ?thesis by simp
    next
      case (Cons b ps')
      with Cons.prems have "no_inf a" "nonzero_fin b" "list_all no_inf ws" "list_all nonzero_fin ps'"
        by simp_all
      with Cons.IH [of ps'] turnover_entry_zero [of a b] show ?thesis
        unfolding Cons by simp
    qed
  qed
  then show ?thesis by (rule pd_sum_zero)
qed


lemma Min_increasing:
  "sorted_wrt (<) (ds :: date list) \<Longrightarrow> ds \<noteq> [] \<Longrightarrow> Min (set ds) = hd ds"
proof -
  assume s: "sorted_wrt (<) ds" and ne: "ds \<noteq> []"
  then obtain d ds' where ds: "ds = d # ds'" by (cases ds) auto
  have "\<forall>x\<in>set ds. d \<le> x" using s ds by auto
  moreover have "d \<in> set ds" using ds by simp
  ultimately have "Min (set ds) = d" by (intro Min_eqI) simp_all
  then show ?thesis using ds by simp
qed

lemma single_row_init:
  assumes ok: "track_inputs_ok p w tc" and w: "rows w = [(index p ! 0, ws)]" and ne: "rows p \<noteq> []"
  shows "shares (track_init p w) = map2 fdiv ws (iloc p 0)"
    and "cash (track_init p w)
         = fsub (Fin 1) (pd_sum (map2 fmul (map2 fdiv ws (iloc p 0)) (iloc p 0)))"
proof -
  have ine: "index p \<noteq> []" using ne by (simp add: index_def)
  then have hd0: "hd (index p) = index p ! 0" by (simp add: hd_conv_nth)
  have "sorted_wrt (<) (index p)" using ok by (simp add: track_inputs_ok_def track_tables_ok_def)
  then have "Min (set (index p)) = index p ! 0" using ine hd0 by (simp add: Min_increasing)
  moreover have "index w = [index p ! 0]" using w by (simp add: index_def)
  moreover have "index p ! 0 \<in> set (index p)" using ine by simp
  ultimately have d0: "first_label w p = index p ! 0"
    using hd0 by (simp add: first_label_def insert_absorb)
  have lw: "loc w (index p ! 0) = ws" using w by (simp add: loc_def)
  have "distinct (index p)" using ok by (simp add: track_inputs_ok_def track_tables_ok_def wf_frame_def)
  then have lp: "loc p (index p ! 0) = iloc p 0" using ne by (intro loc_index) simp_all
  show "shares (track_init p w) = map2 fdiv ws (iloc p 0)"
    by (simp add: track_init_def Let_def d0 lw lp)
  show "cash (track_init p w)
         = fsub (Fin 1) (pd_sum (map2 fmul (map2 fdiv ws (iloc p 0)) (iloc p 0)))"
    by (simp add: track_init_def Let_def d0 lw lp)
qed

lemma single_row_first_step:
  assumes ok: "track_inputs_ok p w tc" and tc: "is_fin tc"
    and w: "rows w = [(index p ! 0, ws)]" and n: "1 < length (rows p)"
  defines "shares0 \<equiv> map2 fdiv ws (iloc p 0)"
  defines "cash0 \<equiv> fsub (Fin 1) (pd_sum (map2 fmul shares0 (iloc p 0)))"
  defines "v1 \<equiv> fadd (pd_sum (map2 fmul shares0 (iloc p 1))) cash0"
  shows "value_arr (track_run p w tc 2) ! 1 = v1"
    and "shares (track_run p w tc 2) = map2 fdiv (map (\<lambda>x. fmul x v1) ws) (iloc p 1)"
    and "cash (track_run p w tc 2)
         = fsub v1 (pd_sum (map2 fmul (shares (track_run p w tc 2)) (iloc p 1)))"
proof -
  let ?st = "track_init p w"
  have ne: "rows p \<noteq> []" using n by auto
  have run: "track_run p w tc 2 = track_step p w tc 1 ?st"
    using track_run_Suc [of 1 p w tc] by (simp add: track_run_1 numeral_2_eq_2)
  have mem: "index p ! (1 - 1) \<in> set (index w)" using w by (simp add: index_def)
  have len: "1 < length (value_arr ?st)" using n by (simp add: track_init_def Let_def index_def)
  have dist: "distinct (index p)" using ok by (simp add: track_inputs_ok_def track_tables_ok_def wf_frame_def)
  have lp0: "loc p (index p ! 0) = iloc p 0" using dist ne by (intro loc_index) simp_all
  have lp1: "loc p (index p ! 1) = iloc p 1" using dist n by (rule loc_index)
  have lw: "loc w (index p ! 0) = ws" using w by (simp add: loc_def)
  have sh: "shares ?st = shares0" and c: "cash ?st = cash0"
    unfolding shares0_def cash0_def using single_row_init [OF ok w ne] by simp_all
  have v0: "value_arr ?st ! 0 = Fin 1" using ne by (simp add: track_init_def Let_def index_def)
  have "list_all no_inf ws"
    using ok w by (simp add: track_inputs_ok_def track_tables_ok_def no_inf_frame_def)
  moreover have "list_all nonzero_fin (iloc p 0)"
    using ok ne by (simp add: track_inputs_ok_def track_tables_ok_def iloc_price)
  ultimately have "pd_sum (map fabs (map2 fsub ws
            (map (\<lambda>h. fdiv h (Fin 1)) (map2 fmul shares0 (iloc p 0))))) = Fin 0"
    unfolding shares0_def by (rule turnover_zero)
  moreover obtain a where "tc = Fin a" using tc by (cases tc) simp_all
  ultimately have cost: "fmul (fmul tc (Fin 1)) (pd_sum (map fabs (map2 fsub ws
            (map (\<lambda>h. fdiv h (Fin 1)) (map2 fmul shares0 (iloc p 0)))))) = Fin 0"
    by simp
  have v: "fadd (fsub (pd_sum (map2 fmul shares0 (iloc p 1))) (Fin 0)) cash0 = v1"
    by (simp add: v1_def fsub_zero_right)
  show "value_arr (track_run p w tc 2) ! 1 = v1"
    unfolding run using step_rebalance(1) [OF mem len, of tc] lp0 lp1 lw sh c v0 cost v by simp
  show "shares (track_run p w tc 2) = map2 fdiv (map (\<lambda>x. fmul x v1) ws) (iloc p 1)"
    unfolding run using step_rebalance(2) [OF mem len, of tc] lp0 lp1 lw sh c v0 cost v by simp
  show "cash (track_run p w tc 2)
         = fsub v1 (pd_sum (map2 fmul (shares (track_run p w tc 2)) (iloc p 1)))"
    unfolding run using step_rebalance(3) [OF mem len, of tc] lp0 lp1 lw sh c v0 cost v by simp
qed

lemma single_row_holdings_kept:
  assumes ok: "track_inputs_ok p w tc" and w: "rows w = [(index p ! 0, ws)]"
    and t: "1 \<le> t" "t < length (rows p)"
  shows "shares (track_run p w tc (Suc t)) = shares (track_run p w tc 2)
         \<and> cash (track_run p w tc (Suc t)) = cash (track_run p w tc 2)"
  using t
proof (induction t)
  case 0
  then show ?case by simp
next
  case (Suc t)
  show ?case
  proof (cases "t = 0")
    case True
    then show ?thesis by (simp add: numeral_2_eq_2)
  next
    case False
    then have t1: "1 \<le> t" and tn: "t < length (rows p)" using Suc.prems by simp_all
    have dist: "distinct (index p)" using ok by (simp add: track_inputs_ok_def track_tables_ok_def wf_frame_def)
    have "t < length (index p)" and "0 < length (index p)" using tn by (auto simp: index_def)
    with dist have "index p ! t \<noteq> index p ! 0"
      using False by (simp add: nth_eq_iff_index_eq)
    then have nm: "index p ! (Suc t - 1) \<notin> set (index w)" using w by (simp add: index_def)
    have len: "Suc t < length (value_arr (track_run p w tc (Suc t)))"
      using Suc.prems by (simp add: length_value_run)
    have "track_run p w tc (Suc (Suc t)) = track_step p w tc (Suc t) (track_run p w tc (Suc t))"
      by (rule track_run_Suc) simp
    then show ?thesis
      using step_mark_to_market(2,3) [OF nm len, of tc] Suc.IH [OF t1 tn] by simp
  qed
qed

text \<open>
  Claim C3, as amended. For every price table with strictly increasing dates and finite
  nonzero prices and every weight schedule with the columns of the price table and exactly
  one row, dated at the first date of the price table, \<open>make_track\<close>
  with any finite transaction cost rate gives \<open>value[0] = 1\<close> and
  \<open>value[1] = sum(shares0 * price[1]) + cash0\<close> for the initial holdings \<open>shares0\<close>
  and cash \<open>cash0\<close> (no cost is charged, the holdings being on target). The first date
  is a rebalancing date, so at the second date the holdings are replaced once, by
  \<open>shares1 = w * value[1] / price[1]\<close> and \<open>cash1 = value[1] - sum(shares1 * price[1])\<close>;
  they are never changed afterwards, and for every date \<open>t\<close> from the second on
  \<open>value[t] = sum(shares1 * price[t]) + cash1\<close>.
\<close>

theorem single_row_schedule:
  fixes tc :: fl
  assumes "track_inputs_ok df_price df_weight tc" and "is_fin tc"
    and "rows df_weight = [(index df_price ! 0, w)]"
    and "1 \<le> t" and "t < length (rows df_price)"
  defines "shares0 \<equiv> map2 fdiv w (iloc df_price 0)"
  defines "cash0 \<equiv> fsub (Fin 1) (pd_sum (map2 fmul shares0 (iloc df_price 0)))"
  defines "v1 \<equiv> fadd (pd_sum (map2 fmul shares0 (iloc df_price 1))) cash0"
  defines "shares1 \<equiv> map2 fdiv (map (\<lambda>x. fmul x v1) w) (iloc df_price 1)"
  defines "cash1 \<equiv> fsub v1 (pd_sum (map2 fmul shares1 (iloc df_price 1)))"
  shows "\<exists>out. make_track df_price df_weight tc = Inr out
           \<and> iloc out 0 = [Fin 1] \<and> iloc out 1 = [v1]
           \<and> iloc out t = [fadd (pd_sum (map2 fmul shares1 (iloc df_price t))) cash1]
           \<and> shares (track_run df_price df_weight tc (Suc t)) = shares1
           \<and> cash (track_run df_price df_weight tc (Suc t)) = cash1"
proof -
  let ?out = "\<lparr>columns = [''Track''], rows = zip (index df_price)
     (map (\<lambda>v. [v]) (value_arr (track_run df_price df_weight tc (length (rows df_price)))))\<rparr>"
  have n: "1 < length (rows df_price)" and ne: "rows df_price \<noteq> []" using assms(4,5) by auto
  have out: "make_track df_price df_weight tc = Inr ?out" using ne by (rule make_track_Inr)
  have first: "value_arr (track_run df_price df_weight tc 2) ! 1 = v1"
    "shares (track_run df_price df_weight tc 2) = shares1"
    "cash (track_run df_price df_weight tc 2) = cash1"
    unfolding v1_def shares1_def cash1_def cash0_def shares0_def
    using single_row_first_step [OF assms(1,2,3) n] by simp_all
  have kept: "shares (track_run df_price df_weight tc (Suc t)) = shares1"
    "cash (track_run df_price df_weight tc (Suc t)) = cash1"
    using single_row_holdings_kept [OF assms(1,3,4,5)] first(2,3) by simp_all
  have "iloc ?out 0 = [value_arr (track_run df_price df_weight tc (Suc 0)) ! 0]"
    using ne by (intro make_track_iloc) simp
  then have o0: "iloc ?out 0 = [Fin 1]"
    using ne by (simp add: track_run_1 track_init_def Let_def index_def)
  have "iloc ?out 1 = [value_arr (track_run df_price df_weight tc (Suc 1)) ! 1]"
    using n by (rule make_track_iloc)
  then have o1: "iloc ?out 1 = [v1]" using first(1) by (simp add: numeral_2_eq_2)
  have "iloc ?out t = [value_arr (track_run df_price df_weight tc (Suc t)) ! t]"
    using assms(5) by (rule make_track_iloc)
  then have ot: "iloc ?out t = [fadd (pd_sum (map2 fmul shares1 (iloc df_price t))) cash1]"
    using run_value_identity [OF assms(1,5)] kept by simp
  show ?thesis using out o0 o1 ot kept by simp
qed

section \<open>The track simulator on the example tables\<close>

text \<open>The invariant at the third date of the example with two rebalancing dates.\<close>

theorem track_accounting_invariant_witness:
  "\<exists>out. make_track ex_track_price ex_two_weights (Fin (1 / 100)) = Inr out
     \<and> index out = [0, 1, 2] \<and> iloc out 2 = [Fin (447 / 400)]"
  using track_accounting_invariant [of ex_track_price ex_two_weights "Fin (1 / 100)" 2]
  by (simp add: track_inputs_ok_def track_tables_ok_def wf_frame_def nonzero_fin_frame_def no_inf_frame_def
      ex_track_price_def ex_two_weights_def track_run_def track_step_def track_init_def
      first_label_def loc_def iloc_def index_def pd_sum_def isnan_def fsub_def upt_rec Let_def)

text \<open>
  The rebalancing at the third date of the example: the cost is
  \<open>(1/100) * (3/2) * (1/4 + 1/4)\<close>, the value \<open>9/8 - 3/400 = 447/400\<close>.
\<close>

theorem track_rebalance_step_witness:
  "\<exists>out. make_track ex_track_price ex_two_weights (Fin (1 / 100)) = Inr out
     \<and> iloc out 1 = [Fin (3 / 2)] \<and> iloc out 2 = [Fin (447 / 400)]
     \<and> shares (track_run ex_track_price ex_two_weights (Fin (1 / 100)) 3)
        = [Fin (447 / 1600), Fin (1341 / 1600)]
     \<and> cash (track_run ex_track_price ex_two_weights (Fin (1 / 100)) 3) = Fin 0"
  using track_rebalance_step [where df_price = ex_track_price and df_weight = ex_two_weights
      and i = 2 and tc = "Fin (1 / 100)"]
  by (simp add: track_tables_ok_def wf_frame_def ex_track_price_def ex_two_weights_def
      track_run_def track_step_def track_init_def first_label_def loc_def iloc_def index_def
      pd_sum_def isnan_def fsub_def upt_rec Let_def)

text \<open>The single-row schedule on the example, with a cost rate of one percent.\<close>

theorem single_row_schedule_witness:
  "\<exists>out. make_track ex_track_price ex_one_weight (Fin (1 / 100)) = Inr out
     \<and> iloc out 0 = [Fin 1] \<and> iloc out 1 = [Fin (3 / 2)] \<and> iloc out 2 = [Fin (9 / 8)]
     \<and> shares (track_run ex_track_price ex_one_weight (Fin (1 / 100)) 3)
        = [Fin (3 / 8), Fin (3 / 4)]
     \<and> cash (track_run ex_track_price ex_one_weight (Fin (1 / 100)) 3) = Fin 0"
  using single_row_schedule [of ex_track_price ex_one_weight "Fin (1 / 100)"
      "[Fin (1 / 2), Fin (1 / 2)]" 2]
  by (simp add: track_inputs_ok_def track_tables_ok_def wf_frame_def nonzero_fin_frame_def no_inf_frame_def
      ex_track_price_def ex_one_weight_def iloc_def index_def pd_sum_def isnan_def fsub_def Let_def)

text \<open>
  The claim as the spec states it fails on the example: the initial holdings are
  \<open>(1/2, 1/2)\<close> with no cash, so holding them gives \<open>1/2 * 1 + 1/2 * 1 = 1\<close> at the
  third date, while \<open>make_track\<close> reports \<open>9/8\<close>: the holdings were replaced by
  \<open>(3/8, 3/4)\<close> at the second date.
\<close>

theorem buy_and_hold_counterexample:
  "make_track ex_track_price ex_one_weight (Fin 0)
     = Inr \<lparr>columns = [''Track''], rows = [(0, [Fin 1]), (1, [Fin (3 / 2)]), (2, [Fin (9 / 8)])]\<rparr>
   \<and> shares (track_init ex_track_price ex_one_weight) = [Fin (1 / 2), Fin (1 / 2)]
   \<and> cash (track_init ex_track_price ex_one_weight) = Fin 0
   \<and> Fin (9 / 8) \<noteq> fadd (pd_sum (map2 fmul [Fin (1 / 2), Fin (1 / 2)] (iloc ex_track_price 2))) (Fin 0)
   \<and> shares (track_run ex_track_price ex_one_weight (Fin 0) 3) = [Fin (3 / 8), Fin (3 / 4)]"
  by (simp add: ex_track_price_def ex_one_weight_def make_track_def track_run_def track_step_def
      track_init_def first_label_def loc_def iloc_def index_def pd_sum_def isnan_def fsub_def
      upt_rec Let_def)

section \<open>The loop over the windows\<close>

lemma set_row_fresh: "d \<notin> fst ` set rs \<Longrightarrow> set_row d r rs = rs @ [(d, r)]"
  by (simp add: set_row_def)

lemma run_windows_fresh:
  assumes "\<forall>i\<in>set is. body i = Inr (key i, row i)"
    and "distinct (map key is)"
    and "\<forall>i\<in>set is. key i \<notin> fst ` set acc"
  shows "run_windows body is acc = Inr (acc @ map (\<lambda>i. (key i, row i)) is)"
  using assms
proof (induction "is" arbitrary: acc)
  case Nil
  show ?case by simp
next
  case (Cons i "is")
  have fresh: "key i \<notin> fst ` set acc" using Cons.prems(3) by simp
  have "\<forall>j\<in>set is. key j \<notin> fst ` set (acc @ [(key i, row i)])"
    using Cons.prems(2,3) by (auto simp: image_iff)
  then have "run_windows body is (acc @ [(key i, row i)])
             = Inr ((acc @ [(key i, row i)]) @ map (\<lambda>i. (key i, row i)) is)"
    using Cons.prems(1,2) by (intro Cons.IH) simp_all
  then show ?case
    using Cons.prems(1) fresh by (simp add: set_row_fresh)
qed

lemma window_in_range:
  assumes "i < (n - s) div f" "0 < f"
  shows "i * f + s < (n::nat)"
proof -
  have "Suc i \<le> (n - s) div f" using assms(1) by simp
  then have "Suc i * f \<le> ((n - s) div f) * f" by (rule mult_le_mono1)
  also have "\<dots> \<le> n - s" by simp
  finally have "i * f + f \<le> n - s" by simp
  then show ?thesis using assms(2) by linarith
qed

lemma window_ends_increasing:
  assumes "sorted_wrt (<) (idx :: date list)" "0 < f" "k = (length idx - s) div f"
  shows "sorted_wrt (<) (map (\<lambda>i. idx ! (i * f + s)) [0..<k])"
proof -
  have "idx ! (i * f + s) < idx ! (j * f + s)" if "i < j" "j < k" for i j
  proof -
    have "j * f + s < length idx" using that(2) assms(2,3) by (simp add: window_in_range)
    moreover have "i * f + s < j * f + s" using that(1) assms(2) by simp
    ultimately show ?thesis using assms(1) by (simp add: sorted_wrt_iff_nth_less)
  qed
  then show ?thesis by (simp add: sorted_wrt_iff_nth_less)
qed

lemma sorted_wrt_less_distinct: "sorted_wrt (<) (xs :: date list) \<Longrightarrow> distinct xs"
  by (induction xs) auto


section \<open>The weight schedules of the three estimators\<close>

lemma window_ends_sorted:
  assumes "0 < frequency" "map fst df_y = index df_x" "sorted_wrt (<) (index df_x)"
  shows "sorted_wrt (<) (map (window_end df_y sample_length frequency)
           [0..<(length (rows df_x) - sample_length) div frequency])"
proof -
  have "length (map fst df_y) = length (rows df_x)" using assms(2) by (simp add: index_def)
  then have "sorted_wrt (<) (map (\<lambda>i. map fst df_y ! (i * frequency + sample_length))
           [0..<(length (rows df_x) - sample_length) div frequency])"
    using assms by (intro window_ends_increasing) simp_all
  then show ?thesis by (simp add: window_end_def [abs_def])
qed

lemma length_z0:
  "length (z0 (ols_problem x y m b ws)) = m"
  "length (z0 (ols_ER_problem x y m b ws)) = m"
  "length (z0 (lasso_ER_problem x y n m lam b ws)) = m"
  by (simp_all add: ols_problem_def ols_ER_problem_def lasso_ER_problem_def)

lemma ols_rows:
  assumes "0 < frequency" and "map fst df_y = index df_x" and "sorted_wrt (<) (index df_x)"
    and "\<forall>p. length (res_x (minimize p)) = length (z0 p)"
  shows "ols_regression minimize df_y df_x sample_length frequency boundaries weight_sum
         = Inr \<lparr>columns = columns df_x,
                rows = map (\<lambda>i. (window_end df_y sample_length frequency i,
                       res_x (ols_res minimize df_y df_x sample_length frequency boundaries
                                weight_sum i)))
                  [0..<(length (rows df_x) - sample_length) div frequency]\<rparr>"
proof -
  let ?k = "(length (rows df_x) - sample_length) div frequency"
  let ?key = "window_end df_y sample_length frequency"
  let ?row = "\<lambda>i. res_x (ols_res minimize df_y df_x sample_length frequency boundaries weight_sum i)"
  have n: "length df_y = length (rows df_x)"
    using assms(2) by (metis index_def length_map)
  have "\<forall>i\<in>set [0..<?k]. ols_window minimize df_y df_x sample_length frequency boundaries
          weight_sum i = Inr (?key i, ?row i)"
  proof
    fix i assume "i \<in> set [0..<?k]"
    then have "i * frequency + sample_length < length df_y"
      using assms(1) n by (simp add: window_in_range)
    moreover have "length (?row i) = length (columns df_x)"
      using assms(4) by (simp add: ols_res_def length_z0)
    ultimately show "ols_window minimize df_y df_x sample_length frequency boundaries
          weight_sum i = Inr (?key i, ?row i)"
      by (simp add: ols_window_def)
  qed
  moreover have "distinct (map ?key [0..<?k])"
    using window_ends_sorted [OF assms(1,2,3)] by (rule sorted_wrt_less_distinct)
  ultimately have "run_windows (ols_window minimize df_y df_x sample_length frequency boundaries
          weight_sum) [0..<?k] [] = Inr ([] @ map (\<lambda>i. (?key i, ?row i)) [0..<?k])"
    by (intro run_windows_fresh) simp_all
  then show ?thesis using assms(1) by (simp add: ols_regression_def)
qed

lemma length_window_std: "length (window_std std x m) = m"
  by (simp add: window_std_def)

lemma ols_ER_rows:
  assumes "0 < frequency" and "map fst df_y = index df_x" and "sorted_wrt (<) (index df_x)"
    and "\<forall>p. length (res_x (minimize p)) = length (z0 p)"
  shows "ols_regression_ER minimize std df_y df_x sample_length frequency boundaries weight_sum
         = Inr \<lparr>columns = columns df_x,
                rows = map (\<lambda>i. (window_end df_y sample_length frequency i,
                       map2 fdiv
                         (map (\<lambda>c. fmul (hd (ER_std_y std df_y sample_length frequency i)) c)
                            (res_x (ols_ER_res minimize std df_y df_x sample_length frequency
                                      boundaries weight_sum i)))
                         (ER_std_x std df_y df_x sample_length frequency i)))
                  [0..<(length (rows df_x) - sample_length) div frequency]\<rparr>"
proof -
  let ?k = "(length (rows df_x) - sample_length) div frequency"
  let ?key = "window_end df_y sample_length frequency"
  let ?res = "ols_ER_res minimize std df_y df_x sample_length frequency boundaries weight_sum"
  let ?row = "\<lambda>i. map2 fdiv
                 (map (\<lambda>c. fmul (hd (ER_std_y std df_y sample_length frequency i)) c) (res_x (?res i)))
                 (ER_std_x std df_y df_x sample_length frequency i)"
  have n: "length df_y = length (rows df_x)"
    using assms(2) by (metis index_def length_map)
  have "\<forall>i\<in>set [0..<?k]. ols_ER_window minimize std df_y df_x sample_length frequency boundaries
          weight_sum i = Inr (?key i, ?row i)"
  proof
    fix i assume "i \<in> set [0..<?k]"
    then have "i * frequency + sample_length < length df_y"
      using assms(1) n by (simp add: window_in_range)
    moreover have "length (res_x (?res i)) = length (columns df_x)"
      using assms(4) by (simp add: ols_ER_res_def length_z0)
    ultimately show "ols_ER_window minimize std df_y df_x sample_length frequency boundaries
          weight_sum i = Inr (?key i, ?row i)"
      by (simp add: ols_ER_window_def)
  qed
  moreover have "distinct (map ?key [0..<?k])"
    using window_ends_sorted [OF assms(1,2,3)] by (rule sorted_wrt_less_distinct)
  ultimately have "run_windows (ols_ER_window minimize std df_y df_x sample_length frequency
          boundaries weight_sum) [0..<?k] [] = Inr ([] @ map (\<lambda>i. (?key i, ?row i)) [0..<?k])"
    by (intro run_windows_fresh) simp_all
  then show ?thesis using assms(1) by (simp add: ols_regression_ER_def)
qed

lemma lasso_ER_rows:
  assumes "0 < frequency" and "map fst df_y = index df_x" and "sorted_wrt (<) (index df_x)"
    and "\<forall>p. length (res_x (minimize p)) = length (z0 p)"
  shows "lasso_regression_ER minimize std df_y df_x sample_length frequency lambda' boundaries
           weight_sum
         = Inr \<lparr>columns = columns df_x,
                rows = map (\<lambda>i. (window_end df_y sample_length frequency i,
                       map2 fdiv
                         (map (\<lambda>c. fmul (hd (ER_std_y std df_y sample_length frequency i)) c)
                            (res_x (lasso_ER_res minimize std df_y df_x sample_length frequency
                                      lambda' boundaries weight_sum i)))
                         (ER_std_x std df_y df_x sample_length frequency i)))
                  [0..<(length (rows df_x) - sample_length) div frequency]\<rparr>"
proof -
  let ?k = "(length (rows df_x) - sample_length) div frequency"
  let ?key = "window_end df_y sample_length frequency"
  let ?res = "lasso_ER_res minimize std df_y df_x sample_length frequency lambda' boundaries
                weight_sum"
  let ?row = "\<lambda>i. map2 fdiv
                 (map (\<lambda>c. fmul (hd (ER_std_y std df_y sample_length frequency i)) c) (res_x (?res i)))
                 (ER_std_x std df_y df_x sample_length frequency i)"
  have n: "length df_y = length (rows df_x)"
    using assms(2) by (metis index_def length_map)
  have "\<forall>i\<in>set [0..<?k]. lasso_ER_window minimize std df_y df_x sample_length frequency lambda'
          boundaries weight_sum i = Inr (?key i, ?row i)"
  proof
    fix i assume "i \<in> set [0..<?k]"
    then have "i * frequency + sample_length < length df_y"
      using assms(1) n by (simp add: window_in_range)
    moreover have "length (res_x (?res i)) = length (columns df_x)"
      using assms(4) by (simp add: lasso_ER_res_def length_z0)
    ultimately show "lasso_ER_window minimize std df_y df_x sample_length frequency lambda'
          boundaries weight_sum i = Inr (?key i, ?row i)"
      by (simp add: lasso_ER_window_def)
  qed
  moreover have "distinct (map ?key [0..<?k])"
    using window_ends_sorted [OF assms(1,2,3)] by (rule sorted_wrt_less_distinct)
  ultimately have "run_windows (lasso_ER_window minimize std df_y df_x sample_length frequency
          lambda' boundaries weight_sum) [0..<?k] []
          = Inr ([] @ map (\<lambda>i. (?key i, ?row i)) [0..<?k])"
    by (intro run_windows_fresh) simp_all
  then show ?thesis using assms(1) by (simp add: lasso_regression_ER_def)
qed

lemma schedule_shape_rows:
  assumes "0 < frequency" and "map fst df_y = index df_x" and "sorted_wrt (<) (index df_x)"
    and "\<forall>i. length (row i) = length (columns df_x)"
  shows "schedule_shape df_y df_x sample_length frequency
           (Inr \<lparr>columns = columns df_x,
                 rows = map (\<lambda>i. (window_end df_y sample_length frequency i, row i))
                   [0..<(length (rows df_x) - sample_length) div frequency]\<rparr>)"
proof -
  let ?k = "(length (rows df_x) - sample_length) div frequency"
  have idx: "map fst (map (\<lambda>i. (window_end df_y sample_length frequency i, row i)) [0..<?k])
        = map (window_end df_y sample_length frequency) [0..<?k]"
    by simp
  have srt: "sorted_wrt (<) (map (window_end df_y sample_length frequency) [0..<?k])"
    using assms(1,2,3) by (rule window_ends_sorted)
  have we: "window_end df_y sample_length frequency
        = (\<lambda>i. map fst df_y ! (i * frequency + sample_length))"
    by (rule ext) (simp add: window_end_def)
  have rl: "list_all (\<lambda>r. length (snd r) = length (columns df_x))
        (map (\<lambda>i. (window_end df_y sample_length frequency i, row i)) [0..<?k])"
    using assms(4) by (simp add: list_all_iff)
  show ?thesis
    unfolding schedule_shape_def index_def
    using srt rl idx we by (simp add: comp_def)
qed

text \<open>
  Claim C5. For a target and a regressor table over the same \<open>n\<close> strictly increasing
  dates, \<open>n > sample_length\<close> and a positive \<open>frequency\<close>, each of the three
  estimators returns a weight schedule with exactly
  \<open>floor((n - sample_length) / frequency)\<close> rows, keyed by the strictly increasing window
  end dates \<open>index[i*frequency + sample_length]\<close> for \<open>i = 0, 1, ...\<close>, with the columns
  of the regressor table and one value per column in every row. The optimizer is any
  function that returns one coefficient per entry of the start vector.
\<close>

theorem weight_schedule_shape:
  assumes "0 < frequency" and "sample_length < length (rows df_x)"
    and "map fst df_y = index df_x" and "sorted_wrt (<) (index df_x)"
    and "\<forall>p. length (res_x (minimize p)) = length (z0 p)"
  shows "schedule_shape df_y df_x sample_length frequency
           (ols_regression minimize df_y df_x sample_length frequency boundaries weight_sum)
       \<and> schedule_shape df_y df_x sample_length frequency
           (ols_regression_ER minimize std df_y df_x sample_length frequency boundaries weight_sum)
       \<and> schedule_shape df_y df_x sample_length frequency
           (lasso_regression_ER minimize std df_y df_x sample_length frequency lambda' boundaries
              weight_sum)"
proof (intro conjI)
  have "\<forall>i. length (res_x (ols_res minimize df_y df_x sample_length frequency boundaries
              weight_sum i)) = length (columns df_x)"
    using assms(5) by (simp add: ols_res_def length_z0)
  then show "schedule_shape df_y df_x sample_length frequency
           (ols_regression minimize df_y df_x sample_length frequency boundaries weight_sum)"
    unfolding ols_rows [OF assms(1,3,4,5)]
    by (rule schedule_shape_rows [OF assms(1,3,4)])
next
  have "\<forall>i. length (map2 fdiv
                 (map (\<lambda>c. fmul (hd (ER_std_y std df_y sample_length frequency i)) c)
                    (res_x (ols_ER_res minimize std df_y df_x sample_length frequency
                              boundaries weight_sum i)))
                 (ER_std_x std df_y df_x sample_length frequency i)) = length (columns df_x)"
    using assms(5) by (simp add: ols_ER_res_def length_z0 ER_std_x_def length_window_std)
  then show "schedule_shape df_y df_x sample_length frequency
           (ols_regression_ER minimize std df_y df_x sample_length frequency boundaries weight_sum)"
    unfolding ols_ER_rows [OF assms(1,3,4,5)]
    by (rule schedule_shape_rows [OF assms(1,3,4)])
next
  have "\<forall>i. length (map2 fdiv
                 (map (\<lambda>c. fmul (hd (ER_std_y std df_y sample_length frequency i)) c)
                    (res_x (lasso_ER_res minimize std df_y df_x sample_length frequency lambda'
                              boundaries weight_sum i)))
                 (ER_std_x std df_y df_x sample_length frequency i)) = length (columns df_x)"
    using assms(5) by (simp add: lasso_ER_res_def length_z0 ER_std_x_def length_window_std)
  then show "schedule_shape df_y df_x sample_length frequency
           (lasso_regression_ER minimize std df_y df_x sample_length frequency lambda' boundaries
              weight_sum)"
    unfolding lasso_ER_rows [OF assms(1,3,4,5)]
    by (rule schedule_shape_rows [OF assms(1,3,4)])
qed

section \<open>The success flag of the optimizer\<close>

lemma res_x_set_success: "res_x (set_success flag minimize p) = res_x (minimize p)"
  by (simp add: set_success_def)

lemma ols_window_set_success:
  "ols_window (set_success flag minimize) df_y df_x sample_length frequency boundaries weight_sum
   = ols_window minimize df_y df_x sample_length frequency boundaries weight_sum"
  by (rule ext) (simp add: ols_window_def ols_res_def res_x_set_success)

lemma ols_ER_window_set_success:
  "ols_ER_window (set_success flag minimize) std df_y df_x sample_length frequency boundaries
     weight_sum
   = ols_ER_window minimize std df_y df_x sample_length frequency boundaries weight_sum"
  by (rule ext) (simp add: ols_ER_window_def ols_ER_res_def res_x_set_success)

lemma lasso_ER_window_set_success:
  "lasso_ER_window (set_success flag minimize) std df_y df_x sample_length frequency lambda'
     boundaries weight_sum
   = lasso_ER_window minimize std df_y df_x sample_length frequency lambda' boundaries weight_sum"
  by (rule ext) (simp add: lasso_ER_window_def lasso_ER_res_def res_x_set_success)

text \<open>
  Claim C4, as amended. The estimators never read the flag \<open>success\<close> of the optimizer's
  result. For every window, whether or not the optimizer reports convergence, each
  estimator stores the returned vector \<open>res.x\<close> under the end date of the window
  (\<open>ols_regression\<close> as it is, the standardized estimators rescaled to
  \<open>std_y * res.x / std_x\<close>); every window is attempted and returned, and replacing the
  flags by any others leaves the weight schedule unchanged.
\<close>

theorem failed_fit_is_stored:
  fixes sample_length :: nat
  assumes "0 < frequency" and "map fst df_y = index df_x" and "sorted_wrt (<) (index df_x)"
    and "\<forall>p. length (res_x (minimize p)) = length (z0 p)"
  defines "k \<equiv> (length (rows df_x) - sample_length) div frequency"
  shows "(\<exists>out. ols_regression minimize df_y df_x sample_length frequency boundaries weight_sum
                 = Inr out
             \<and> ols_regression (set_success flag minimize) df_y df_x sample_length frequency
                 boundaries weight_sum = Inr out
             \<and> rows out = map (\<lambda>i. (window_end df_y sample_length frequency i,
                   res_x (ols_res minimize df_y df_x sample_length frequency boundaries
                            weight_sum i))) [0..<k])
       \<and> (\<exists>out. ols_regression_ER minimize std df_y df_x sample_length frequency boundaries
                   weight_sum = Inr out
             \<and> ols_regression_ER (set_success flag minimize) std df_y df_x sample_length frequency
                 boundaries weight_sum = Inr out
             \<and> rows out = map (\<lambda>i. (window_end df_y sample_length frequency i,
                   map2 fdiv
                     (map (\<lambda>c. fmul (hd (ER_std_y std df_y sample_length frequency i)) c)
                        (res_x (ols_ER_res minimize std df_y df_x sample_length frequency
                                  boundaries weight_sum i)))
                     (ER_std_x std df_y df_x sample_length frequency i))) [0..<k])
       \<and> (\<exists>out. lasso_regression_ER minimize std df_y df_x sample_length frequency lambda'
                   boundaries weight_sum = Inr out
             \<and> lasso_regression_ER (set_success flag minimize) std df_y df_x sample_length
                 frequency lambda' boundaries weight_sum = Inr out
             \<and> rows out = map (\<lambda>i. (window_end df_y sample_length frequency i,
                   map2 fdiv
                     (map (\<lambda>c. fmul (hd (ER_std_y std df_y sample_length frequency i)) c)
                        (res_x (lasso_ER_res minimize std df_y df_x sample_length frequency lambda'
                                  boundaries weight_sum i)))
                     (ER_std_x std df_y df_x sample_length frequency i))) [0..<k])"
proof (intro conjI)
  have "ols_regression (set_success flag minimize) df_y df_x sample_length frequency
          boundaries weight_sum
        = ols_regression minimize df_y df_x sample_length frequency boundaries weight_sum"
    by (simp add: ols_regression_def ols_window_set_success)
  then show "\<exists>out. ols_regression minimize df_y df_x sample_length frequency boundaries weight_sum
                 = Inr out
             \<and> ols_regression (set_success flag minimize) df_y df_x sample_length frequency
                 boundaries weight_sum = Inr out
             \<and> rows out = map (\<lambda>i. (window_end df_y sample_length frequency i,
                   res_x (ols_res minimize df_y df_x sample_length frequency boundaries
                            weight_sum i))) [0..<k]"
    unfolding k_def by (simp add: ols_rows [OF assms(1,2,3,4)])
next
  have "ols_regression_ER (set_success flag minimize) std df_y df_x sample_length frequency
          boundaries weight_sum
        = ols_regression_ER minimize std df_y df_x sample_length frequency boundaries weight_sum"
    by (simp add: ols_regression_ER_def ols_ER_window_set_success)
  then show "\<exists>out. ols_regression_ER minimize std df_y df_x sample_length frequency boundaries
                   weight_sum = Inr out
             \<and> ols_regression_ER (set_success flag minimize) std df_y df_x sample_length frequency
                 boundaries weight_sum = Inr out
             \<and> rows out = map (\<lambda>i. (window_end df_y sample_length frequency i,
                   map2 fdiv
                     (map (\<lambda>c. fmul (hd (ER_std_y std df_y sample_length frequency i)) c)
                        (res_x (ols_ER_res minimize std df_y df_x sample_length frequency
                                  boundaries weight_sum i)))
                     (ER_std_x std df_y df_x sample_length frequency i))) [0..<k]"
    unfolding k_def by (simp add: ols_ER_rows [OF assms(1,2,3,4)])
next
  have "lasso_regression_ER (set_success flag minimize) std df_y df_x sample_length frequency
          lambda' boundaries weight_sum
        = lasso_regression_ER minimize std df_y df_x sample_length frequency lambda' boundaries
            weight_sum"
    by (simp add: lasso_regression_ER_def lasso_ER_window_set_success)
  then show "\<exists>out. lasso_regression_ER minimize std df_y df_x sample_length frequency lambda'
                   boundaries weight_sum = Inr out
             \<and> lasso_regression_ER (set_success flag minimize) std df_y df_x sample_length
                 frequency lambda' boundaries weight_sum = Inr out
             \<and> rows out = map (\<lambda>i. (window_end df_y sample_length frequency i,
                   map2 fdiv
                     (map (\<lambda>c. fmul (hd (ER_std_y std df_y sample_length frequency i)) c)
                        (res_x (lasso_ER_res minimize std df_y df_x sample_length frequency lambda'
                                  boundaries weight_sum i)))
                     (ER_std_x std df_y df_x sample_length frequency i))) [0..<k]"
    unfolding k_def by (simp add: lasso_ER_rows [OF assms(1,2,3,4)])
qed

section \<open>Rounding to binary64\<close>

lemma rne_of_int: "rne (of_int n) = n"
  by (simp add: rne_def)

lemma floor_log2_eq:
  assumes "2 powr of_int k \<le> x" "x < 2 powr of_int (k + 1)"
  shows "\<lfloor>log 2 x\<rfloor> = k"
proof -
  have pos: "0 < x" using assms(1) powr_gt_zero [of 2 "of_int k"] by linarith
  have "of_int k \<le> log 2 x" using assms(1) pos by (simp add: le_log_iff)
  moreover have "log 2 x < of_int (k + 1)" using assms(2) pos by (simp add: log_less_iff)
  ultimately show ?thesis by (simp add: floor_eq_iff)
qed

lemma round53_normal:
  assumes "2 ^ 52 \<le> \<bar>q\<bar>" "\<bar>q\<bar> < 2 ^ 53"
  shows "round53 q = of_int (rne q)"
proof -
  have "\<lfloor>log 2 \<bar>q\<bar>\<rfloor> = 52"
    using assms by (intro floor_log2_eq) (simp_all add: powr_realpow)
  moreover have "q \<noteq> 0" using assms(1) by auto
  ultimately show ?thesis by (simp add: round53_def)
qed

lemma round53_scale:
  "round53 (x * 2 powr of_int k) = round53 x * 2 powr of_int k"
proof (cases "x = 0")
  case True
  then show ?thesis by (simp add: round53_def)
next
  case False
  have "log 2 \<bar>x * 2 powr of_int k\<bar> = log 2 \<bar>x\<bar> + of_int k"
    using False by (simp add: abs_mult log_mult)
  then have "\<lfloor>log 2 \<bar>x * 2 powr of_int k\<bar>\<rfloor> = \<lfloor>log 2 \<bar>x\<bar>\<rfloor> + k"
    by simp
  then have "(2::real) powr of_int (\<lfloor>log 2 \<bar>x * 2 powr of_int k\<bar>\<rfloor> - 52)
             = 2 powr of_int (\<lfloor>log 2 \<bar>x\<bar>\<rfloor> - 52) * 2 powr of_int k"
    by (simp add: powr_add [symmetric] algebra_simps)
  then show ?thesis using False by (simp add: round53_def Let_def)
qed

lemma round53_of_int:
  assumes "\<bar>n\<bar> < 2 ^ 53"
  shows "round53 (of_int n) = of_int n"
proof (cases "n = 0")
  case True
  then show ?thesis by (simp add: round53_def)
next
  case False
  define e where "e = \<lfloor>log 2 \<bar>real_of_int n\<bar>\<rfloor>"
  have one: "1 \<le> \<bar>real_of_int n\<bar>" using False by (simp flip: of_int_abs add: int_one_le_iff_zero_less)
  have "0 \<le> log 2 \<bar>real_of_int n\<bar>" using one by simp
  then have e0: "0 \<le> e" by (simp add: e_def)
  have "\<bar>real_of_int n\<bar> < 2 ^ 53" using assms by (metis of_int_abs of_int_less_numeral_power_cancel_iff)
  then have "log 2 \<bar>real_of_int n\<bar> < 53"
    using one by (simp add: log_less_iff powr_realpow del: of_int_abs)
  then have e52: "e \<le> 52" by (simp add: e_def floor_le_iff)
  define j where "j = nat (52 - e)"
  have "(2::real) ^ j = 2 powr real j" by (simp add: powr_realpow)
  also have "real j = of_int (52 - e)" using e52 by (simp add: j_def)
  finally have "(2::real) powr of_int (e - 52) * 2 ^ j = 2 powr (of_int (e - 52) + of_int (52 - e))"
    by (simp only: powr_add)
  then have "(2::real) powr of_int (e - 52) * 2 ^ j = 1" by simp
  then have s: "(2::real) powr of_int (e - 52) = 1 / 2 ^ j"
    by (simp add: field_simps)
  have "real_of_int n / (1 / 2 ^ j) = of_int (n * 2 ^ j)" by simp
  then have "rne (real_of_int n / (1 / 2 ^ j)) = n * 2 ^ j" by (simp only: rne_of_int)
  then show ?thesis using False s by (simp add: round53_def e_def [symmetric])
qed

lemma round53_numeral [simp]:
  "numeral k < (9007199254740992::int) \<Longrightarrow> round53 (numeral k) = numeral k"
  "numeral k < (9007199254740992::int) \<Longrightarrow> round53 (- numeral k) = - numeral k"
  "round53 0 = 0" "round53 1 = 1" "round53 (- 1) = - 1"
  using round53_of_int [of "numeral k"] round53_of_int [of "- numeral k"]
    round53_of_int [of 1] round53_of_int [of "- 1"]
  by (simp_all add: round53_def)

lemma round53_dyadic:
  assumes "\<bar>n\<bar> < 2 ^ 53" "x = of_int n / 2 ^ k"
  shows "round53 x = x"
proof -
  have "(2::real) powr of_int (- int k) = 1 / 2 ^ k"
    by (simp add: powr_minus powr_realpow field_simps)
  then have x: "x = of_int n * 2 powr of_int (- int k)" using assms(2) by simp
  show ?thesis
    unfolding x round53_scale using assms(1) by (simp only: round53_of_int)
qed

lemma round53_dyadic_rne:
  assumes "2 ^ 52 \<le> \<bar>q\<bar>" "\<bar>q\<bar> < 2 ^ 53" "x = q / 2 ^ k"
  shows "round53 x = of_int (rne q) / 2 ^ k"
proof -
  have p: "(2::real) powr of_int (- int k) = 1 / 2 ^ k"
    by (simp add: powr_minus powr_realpow field_simps)
  then have x: "x = q * 2 powr of_int (- int k)" using assms(3) by simp
  show ?thesis
    unfolding x round53_scale using assms(1,2) p by (simp add: round53_normal)
qed

lemma round53_pos:
  assumes "0 < x"
  shows "0 < round53 x"
proof -
  define e where "e = \<lfloor>log 2 \<bar>x\<bar>\<rfloor>"
  define s :: real where "s = 2 powr of_int (e - 52)"
  have s: "0 < s" by (simp add: s_def)
  have "of_int e \<le> log 2 x" using assms by (simp add: e_def)
  then have "2 powr of_int e \<le> x" using assms by (simp add: le_log_iff)
  moreover have "2 powr of_int e = 2 ^ 52 * s"
    by (simp add: s_def powr_diff powr_realpow)
  ultimately have "2 ^ 52 \<le> x / s" using s by (simp add: field_simps)
  then have "1 \<le> x / s" by simp
  then have "1 \<le> \<lfloor>x / s\<rfloor>" by (simp add: le_floor_iff)
  moreover have "\<lfloor>x / s\<rfloor> \<le> rne (x / s)" by (simp add: rne_def Let_def)
  ultimately have "0 < rne (x / s)" by linarith
  then have "0 < of_int (rne (x / s)) * s" using s by simp
  then show ?thesis using assms by (simp add: round53_def e_def s_def Let_def)
qed

lemma rne_close: "\<bar>of_int (rne q) - q\<bar> \<le> 1 / 2"
proof -
  have "of_int \<lfloor>q\<rfloor> \<le> q" "q < of_int \<lfloor>q\<rfloor> + 1" by linarith+
  then show ?thesis
    by (auto simp: rne_def Let_def)
qed

lemma round53_close:
  assumes "0 < x"
  shows "\<bar>round53 x - x\<bar> \<le> x / 2 ^ 53"
proof -
  define s :: real where "s = 2 powr of_int (\<lfloor>log 2 \<bar>x\<bar>\<rfloor> - 52)"
  have s: "0 < s" by (simp add: s_def)
  have "of_int \<lfloor>log 2 x\<rfloor> - 52 \<le> log 2 x - 52" by simp
  then have "s \<le> 2 powr (log 2 x - 52)"
    using assms by (simp add: s_def)
  also have "\<dots> = x / 2 ^ 52"
    using assms by (simp add: powr_diff)
  finally have sle: "s \<le> x / 2 ^ 52" .
  have "round53 x = of_int (rne (x / s)) * s"
    using assms by (simp add: round53_def s_def Let_def)
  then have "round53 x - x = (of_int (rne (x / s)) - x / s) * s"
    using s by (simp add: field_simps)
  then have "\<bar>round53 x - x\<bar> = \<bar>of_int (rne (x / s)) - x / s\<bar> * s"
    using s by (simp add: abs_mult)
  also have "\<dots> \<le> (1 / 2) * s"
    using rne_close [of "x / s"] s by (intro mult_right_mono) simp_all
  also have "\<dots> \<le> (1 / 2) * (x / 2 ^ 52)"
    using sle by simp
  finally show ?thesis by simp
qed

section \<open>The standard deviation of the example columns\<close>

lemma ex_std_values:
  "pd_std [Fin 1, Fin 3, Fin 5] = Fin 2"
  "pd_std [Fin 3, Fin 5, Fin 1] = Fin 2"
  "pd_std [Fin 3, Fin 5, Fin 4] = Fin 1"
  "pd_std [Fin 1, Fin 1, Fin 1] = Fin 0"
  by (simp_all add: pd_std_def rsum_def isnan_def fsub_def)

text \<open>
  Three entries equal to the binary64 number nearest to \<open>0.1\<close>: the sum of the three
  is rounded up in a tie, the rounded mean is one unit in the last place above the
  entries, and the standard deviation is not zero.
\<close>

lemma pd_std_tenth:
  "pd_std [Fin tenth, Fin tenth, Fin tenth] = Fin (round53 (sqrt (3 / 2 ^ 113)))"
proof -
  define d :: real where "d = tenth"
  define s2 :: real where "s2 = 7205759403792794 / 2 ^ 55"
  define s3 :: real where "s3 = 5404319552844596 / 2 ^ 54"
  define avg :: real where "avg = 7205759403792795 / 2 ^ 56"
  define u :: real where "u = 1 / 2 ^ 56"
  define w :: real where "w = 1 / 2 ^ 112"
  have r1: "round53 d = d"
    by (rule round53_dyadic [where n = 7205759403792794 and k = 56]) (simp_all add: d_def tenth_def)
  have "round53 (d + d) = s2"
    unfolding s2_def
    using round53_dyadic [where n = 7205759403792794 and k = 55 and x = "d + d"]
    by (simp add: d_def tenth_def)
  then have r2: "round53 (d + d) = s2" "round53 (2 * d) = s2" by simp_all
  have r3: "round53 (s2 + d) = s3"
    unfolding s3_def
    using round53_dyadic_rne [where q = "10808639105689191 / 2" and k = 54 and x = "s2 + d"]
    by (simp add: d_def tenth_def s2_def rne_def)
  have r4: "round53 (s3 / 3) = avg"
    unfolding avg_def
    using round53_dyadic_rne [where q = "21617278211378384 / 3" and k = 56 and x = "s3 / 3"]
    by (simp add: s3_def rne_def)
  have r5: "round53 (avg - d) = u"
    unfolding u_def
    using round53_dyadic [where n = 1 and k = 56 and x = "avg - d"]
    by (simp add: avg_def d_def tenth_def)
  have r6: "round53 (u * u) = w"
    unfolding w_def
    using round53_dyadic [where n = 1 and k = 112 and x = "u * u"]
    by (simp add: u_def)
  have "round53 w = w" "round53 (w + w) = 2 * w" "round53 (2 * w + w) = 3 * w"
    using round53_dyadic [where n = 1 and k = 112 and x = "w"]
      round53_dyadic [where n = 2 and k = 112 and x = "w + w"]
      round53_dyadic [where n = 3 and k = 112 and x = "2 * w + w"]
    by (simp_all add: w_def)
  then have r7: "round53 w = w" "round53 (w + w) = 2 * w" "round53 (2 * w) = 2 * w"
    "round53 (2 * w + w) = 3 * w" "round53 (3 * w) = 3 * w"
    by simp_all
  have r8: "round53 (3 * w / 2) = 3 / 2 ^ 113"
    using round53_dyadic [where n = 3 and k = 113 and x = "3 * w / 2"]
    by (simp add: w_def)
  have "pd_std [Fin d, Fin d, Fin d] = Fin (round53 (sqrt (3 / 2 ^ 113)))"
    by (simp add: pd_std_def rsum_def isnan_def fsub_def Let_def r1 r2 r3 r4 r5 r6 r7 r8)
  then show ?thesis by (simp add: d_def)
qed

lemma tenth_std_eq: "pd_std [Fin tenth, Fin tenth, Fin tenth] = Fin tenth_std"
  by (simp add: pd_std_tenth tenth_std_def)

lemma tenth_pos: "0 < tenth"
  by (simp add: tenth_def)

lemma tenth_std_pos: "0 < tenth_std"
  unfolding tenth_std_def by (rule round53_pos) simp

lemma sqrt_lower: "1699 / 10 ^ 20 < sqrt (3 / 2 ^ 113)"
  by (rule real_less_rsqrt) (simp add: power2_eq_square)

lemma sqrt_upper: "sqrt (3 / 2 ^ 113) < 1700 / 10 ^ 20"
  by (rule real_less_lsqrt) (simp_all add: power2_eq_square)

lemma tenth_std_bounds: "16 / 10 ^ 18 < tenth_std" "tenth_std < 18 / 10 ^ 18"
proof -
  define r :: real where "r = sqrt (3 / 2 ^ 113)"
  have r: "1699 / 10 ^ 20 < r" "r < 1700 / 10 ^ 20"
    using sqrt_lower sqrt_upper by (simp_all add: r_def)
  then have "0 < r" by simp
  then have "\<bar>round53 r - r\<bar> \<le> r / 2 ^ 53" by (rule round53_close)
  then have "r - r / 2 ^ 53 \<le> round53 r" "round53 r \<le> r + r / 2 ^ 53" by linarith+
  moreover have "r / 2 ^ 53 < 1 / 10 ^ 20" using r by simp
  moreover have "tenth_std = round53 r" by (simp only: tenth_std_def r_def)
  ultimately show "16 / 10 ^ 18 < tenth_std" "tenth_std < 18 / 10 ^ 18"
    using r by simp_all
qed

section \<open>The budget constraint\<close>

lemma budget_residual_zero:
  "\<not> isnan weight_sum \<Longrightarrow>
   fsub (np_sum (map Fin z)) weight_sum = Fin 0 \<longleftrightarrow> Fin (sum_list z) = weight_sum"
  by (cases weight_sum) (auto simp: np_sum_Fin fsub_def isnan_def)

text \<open>
  Claim C6. Let the estimators be called on a target and regressors with the same
  strictly increasing dates, a positive \<open>frequency\<close>, and an optimizer that returns one
  coefficient per entry of the start vector. Then each of \<open>ols_regression\<close>,
  \<open>ols_regression_ER\<close> and \<open>lasso_regression_ER\<close> returns the schedule whose row for
  window \<open>i\<close> is computed from the vector that the optimizer returns for the problem of
  that window, and the list of constraints \<open>cons\<close> of that problem, the same in every
  window, is empty if and only if \<open>weight_sum\<close> is \<open>NaN\<close>; if \<open>weight_sum\<close> is not
  \<open>NaN\<close>, it is the single equality constraint whose residual vanishes exactly at the
  vectors that sum to \<open>weight_sum\<close>. In particular \<open>weight_sum = 0\<close> imposes the
  zero-sum constraint and \<open>weight_sum = NaN\<close> imposes none.
\<close>

theorem budget_constraint_iff_not_nan:
  fixes weight_sum :: fl and sample_length :: nat
  assumes "0 < frequency" and "map fst df_y = index df_x" and "sorted_wrt (<) (index df_x)"
    and "\<forall>p. length (res_x (minimize p)) = length (z0 p)"
  defines "k \<equiv> (length (rows df_x) - sample_length) div frequency"
    and "m \<equiv> length (columns df_x)"
    and "cons \<equiv> (if isnan weight_sum then []
                  else [EqCons (\<lambda>z. fsub (np_sum (map Fin z)) weight_sum)])"
  shows "(\<exists>out. ols_regression minimize df_y df_x sample_length frequency boundaries weight_sum
                 = Inr out
             \<and> rows out = map (\<lambda>i. (window_end df_y sample_length frequency i,
                   res_x (minimize
                     \<lparr>loss = sq_residuals (window_x df_y df_x sample_length frequency i)
                               (window_y df_y sample_length frequency i),
                      z0 = replicate m 0, constraints = cons,
                      bounds = replicate m boundaries\<rparr>))) [0..<k])
       \<and> (\<exists>out. ols_regression_ER minimize std df_y df_x sample_length frequency boundaries
                   weight_sum = Inr out
             \<and> rows out = map (\<lambda>i. (window_end df_y sample_length frequency i,
                   map2 fdiv
                     (map (\<lambda>c. fmul (hd (ER_std_y std df_y sample_length frequency i)) c)
                        (res_x (minimize
                          \<lparr>loss = sq_residuals (ER_x std df_y df_x sample_length frequency i)
                                    (ER_y std df_y sample_length frequency i),
                           z0 = replicate m 0, constraints = cons,
                           bounds = replicate m boundaries\<rparr>)))
                     (ER_std_x std df_y df_x sample_length frequency i))) [0..<k])
       \<and> (\<exists>out. lasso_regression_ER minimize std df_y df_x sample_length frequency lambda'
                   boundaries weight_sum = Inr out
             \<and> rows out = map (\<lambda>i. (window_end df_y sample_length frequency i,
                   map2 fdiv
                     (map (\<lambda>c. fmul (hd (ER_std_y std df_y sample_length frequency i)) c)
                        (res_x (minimize
                          \<lparr>loss = (\<lambda>z. fadd
                                    (sq_residuals (ER_x std df_y df_x sample_length frequency i)
                                       (ER_y std df_y sample_length frequency i) z)
                                    (fmul (fmul lambda' (Fin (real (length (rows df_x)))))
                                       (np_sum (map fabs (map Fin z))))),
                           z0 = replicate m 0, constraints = cons,
                           bounds = replicate m boundaries\<rparr>)))
                     (ER_std_x std df_y df_x sample_length frequency i))) [0..<k])
       \<and> (cons = [] \<longleftrightarrow> isnan weight_sum)
       \<and> (\<not> isnan weight_sum \<longrightarrow>
            (\<exists>g. cons = [EqCons g] \<and> (\<forall>z. g z = Fin 0 \<longleftrightarrow> Fin (sum_list z) = weight_sum)))"
proof (intro conjI)
  show "\<exists>out. ols_regression minimize df_y df_x sample_length frequency boundaries weight_sum
                 = Inr out
             \<and> rows out = map (\<lambda>i. (window_end df_y sample_length frequency i,
                   res_x (minimize
                     \<lparr>loss = sq_residuals (window_x df_y df_x sample_length frequency i)
                               (window_y df_y sample_length frequency i),
                      z0 = replicate m 0, constraints = cons,
                      bounds = replicate m boundaries\<rparr>))) [0..<k]"
    unfolding k_def m_def cons_def
    by (simp add: ols_rows [OF assms(1,2,3,4)] ols_res_def ols_problem_def)
next
  show "\<exists>out. ols_regression_ER minimize std df_y df_x sample_length frequency boundaries
                   weight_sum = Inr out
             \<and> rows out = map (\<lambda>i. (window_end df_y sample_length frequency i,
                   map2 fdiv
                     (map (\<lambda>c. fmul (hd (ER_std_y std df_y sample_length frequency i)) c)
                        (res_x (minimize
                          \<lparr>loss = sq_residuals (ER_x std df_y df_x sample_length frequency i)
                                    (ER_y std df_y sample_length frequency i),
                           z0 = replicate m 0, constraints = cons,
                           bounds = replicate m boundaries\<rparr>)))
                     (ER_std_x std df_y df_x sample_length frequency i))) [0..<k]"
    unfolding k_def m_def cons_def
    by (simp add: ols_ER_rows [OF assms(1,2,3,4)] ols_ER_res_def ols_ER_problem_def)
next
  show "\<exists>out. lasso_regression_ER minimize std df_y df_x sample_length frequency lambda'
                   boundaries weight_sum = Inr out
             \<and> rows out = map (\<lambda>i. (window_end df_y sample_length frequency i,
                   map2 fdiv
                     (map (\<lambda>c. fmul (hd (ER_std_y std df_y sample_length frequency i)) c)
                        (res_x (minimize
                          \<lparr>loss = (\<lambda>z. fadd
                                    (sq_residuals (ER_x std df_y df_x sample_length frequency i)
                                       (ER_y std df_y sample_length frequency i) z)
                                    (fmul (fmul lambda' (Fin (real (length (rows df_x)))))
                                       (np_sum (map fabs (map Fin z))))),
                           z0 = replicate m 0, constraints = cons,
                           bounds = replicate m boundaries\<rparr>)))
                     (ER_std_x std df_y df_x sample_length frequency i))) [0..<k]"
    unfolding k_def m_def cons_def
    by (simp add: lasso_ER_rows [OF assms(1,2,3,4)] lasso_ER_res_def lasso_ER_problem_def)
next
  show "cons = [] \<longleftrightarrow> isnan weight_sum" by (simp add: cons_def)
next
  show "\<not> isnan weight_sum \<longrightarrow>
            (\<exists>g. cons = [EqCons g] \<and> (\<forall>z. g z = Fin 0 \<longleftrightarrow> Fin (sum_list z) = weight_sum))"
    by (simp add: cons_def budget_residual_zero)
qed

section \<open>Regressors without variance\<close>

lemma fdiv_NaN: "fdiv v NaN = NaN"
  by (cases v) simp_all

lemma window_std_zero:
  "j < m \<Longrightarrow> std (map (\<lambda>r. r ! j) x) = Fin 0 \<Longrightarrow> window_std std x m ! j = NaN"
  by (simp add: window_std_def replace_def)

lemma standardize_zero_column:
  assumes "j < m" and "std (map (\<lambda>r. r ! j) x) = Fin 0"
    and "list_all (\<lambda>r. length r = m) x"
  shows "list_all (\<lambda>r. r ! j = Fin 0) (standardize x (window_std std x m))"
proof -
  have std: "window_std std x m ! j = NaN"
    using assms(1,2) by (rule window_std_zero)
  have "map (replace NaN (Fin 0)) (map2 fdiv r (window_std std x m)) ! j = Fin 0"
    if "r \<in> set x" for r
  proof -
    have "length r = m" using that assms(3) by (simp add: list_all_iff)
    then have "map2 fdiv r (window_std std x m) ! j = fdiv (r ! j) (window_std std x m ! j)"
      using assms(1) by (simp add: length_window_std)
    moreover have "j < length (map2 fdiv r (window_std std x m))"
      using \<open>length r = m\<close> assms(1) by (simp add: length_window_std)
    ultimately show ?thesis by (simp add: std fdiv_NaN replace_def)
  qed
  then show ?thesis by (simp add: standardize_def list_all_iff)
qed

lemma window_x_rows:
  "list_all (\<lambda>r. length (snd r) = m) (rows df_x)
   \<Longrightarrow> list_all (\<lambda>r. length r = m) (window_x df_y df_x sample_length frequency i)"
  by (auto simp: window_x_def loc_slice_def list_all_iff)

lemma map_of_keyed_rows:
  assumes "distinct (map key is)" "i \<in> set is"
  shows "map_of (map (\<lambda>i. (key i, row i)) is) (key i) = Some (row i)"
proof -
  have "distinct (map fst (map (\<lambda>i. (key i, row i)) is))"
    using assms(1) by (simp add: comp_def)
  moreover have "(key i, row i) \<in> set (map (\<lambda>i. (key i, row i)) is)"
    using assms(2) by auto
  ultimately show ?thesis by (simp only: map_of_eq_Some_iff)
qed

lemma rescaled_row_NaN:
  assumes "j < m" "length cs = m" "length sx = m" "sx ! j = NaN"
  shows "length (map2 fdiv (map (\<lambda>c. fmul s c) cs) sx) = m"
    and "map2 fdiv (map (\<lambda>c. fmul s c) cs) sx ! j = NaN"
  using assms by (simp_all add: fdiv_NaN)

text \<open>
  Claim C7, as amended. In the standardized estimators, called as in claim C6 on
  regressors with one value per column in each row, let the standard deviation of column
  \<open>j\<close> over window \<open>i\<close>, as \<open>std\<close> computes it, be exactly \<open>0\<close>. Then the column
  does not cause a fault: its standard deviation is replaced by \<open>NaN\<close>, its
  standardized values, which are the data of the objective the optimizer receives, are
  all zero, and both estimators return a schedule whose row for the window is the
  rescaled vector that the optimizer returns for that objective. The row has one value
  per regressor, and its value for column \<open>j\<close> is \<open>NaN\<close>: the coefficient is divided by
  the replaced standard deviation.
\<close>

theorem zero_std_column_neutralized:
  fixes weight_sum :: fl and sample_length :: nat
  assumes "0 < frequency" and "map fst df_y = index df_x" and "sorted_wrt (<) (index df_x)"
    and "\<forall>p. length (res_x (minimize p)) = length (z0 p)"
    and "list_all (\<lambda>r. length (snd r) = length (columns df_x)) (rows df_x)"
    and "i < (length (rows df_x) - sample_length) div frequency"
    and "j < length (columns df_x)"
    and "std (map (\<lambda>r. r ! j) (window_x df_y df_x sample_length frequency i)) = Fin 0"
  defines "m \<equiv> length (columns df_x)"
    and "x \<equiv> ER_x std df_y df_x sample_length frequency i"
    and "y \<equiv> ER_y std df_y sample_length frequency i"
    and "std_x \<equiv> ER_std_x std df_y df_x sample_length frequency i"
    and "std_y \<equiv> ER_std_y std df_y sample_length frequency i"
    and "cons \<equiv> (if isnan weight_sum then []
                  else [EqCons (\<lambda>z. fsub (np_sum (map Fin z)) weight_sum)])"
  shows "std_x ! j = NaN
       \<and> list_all (\<lambda>r. r ! j = Fin 0) x
       \<and> (\<exists>out row. ols_regression_ER minimize std df_y df_x sample_length frequency
                       boundaries weight_sum = Inr out
             \<and> map_of (rows out) (window_end df_y sample_length frequency i) = Some row
             \<and> row = map2 fdiv
                       (map (\<lambda>c. fmul (hd std_y) c)
                          (res_x (minimize \<lparr>loss = sq_residuals x y, z0 = replicate m 0,
                                    constraints = cons, bounds = replicate m boundaries\<rparr>)))
                       std_x
             \<and> length row = m \<and> row ! j = NaN)
       \<and> (\<exists>out row. lasso_regression_ER minimize std df_y df_x sample_length frequency lambda'
                       boundaries weight_sum = Inr out
             \<and> map_of (rows out) (window_end df_y sample_length frequency i) = Some row
             \<and> row = map2 fdiv
                       (map (\<lambda>c. fmul (hd std_y) c)
                          (res_x (minimize
                             \<lparr>loss = (\<lambda>z. fadd (sq_residuals x y z)
                                        (fmul (fmul lambda' (Fin (real (length (rows df_x)))))
                                           (np_sum (map fabs (map Fin z))))),
                              z0 = replicate m 0, constraints = cons,
                              bounds = replicate m boundaries\<rparr>)))
                       std_x
             \<and> length row = m \<and> row ! j = NaN)"
proof (intro conjI)
  let ?k = "(length (rows df_x) - sample_length) div frequency"
  let ?key = "window_end df_y sample_length frequency"
  have sx: "std_x ! j = NaN"
    unfolding std_x_def ER_std_x_def using assms(7,8) by (rule window_std_zero)
  then show "std_x ! j = NaN" .
  have "list_all (\<lambda>r. length r = length (columns df_x))
          (window_x df_y df_x sample_length frequency i)"
    using assms(5) by (rule window_x_rows)
  with assms(7,8) show "list_all (\<lambda>r. r ! j = Fin 0) x"
    unfolding x_def ER_x_def ER_std_x_def by (rule standardize_zero_column)
  have lsx: "length std_x = m" by (simp add: std_x_def ER_std_x_def m_def length_window_std)
  have jm: "j < m" using assms(7) by (simp add: m_def)
  have dist: "distinct (map ?key [0..<?k])"
    using window_ends_sorted [OF assms(1,2,3)] by (rule sorted_wrt_less_distinct)
  have ik: "i \<in> set [0..<?k]" using assms(6) by simp
  let ?P = "\<lparr>loss = sq_residuals x y, z0 = replicate m 0, constraints = cons,
             bounds = replicate m boundaries\<rparr>"
  let ?row = "map2 fdiv (map (\<lambda>c. fmul (hd std_y) c) (res_x (minimize ?P))) std_x"
  have lr: "length (res_x (minimize ?P)) = m" using assms(4) by simp
  have res: "ols_ER_res minimize std df_y df_x sample_length frequency boundaries weight_sum i
             = minimize ?P"
    by (simp add: ols_ER_res_def ols_ER_problem_def x_def y_def m_def cons_def)
  have "map_of (map (\<lambda>i. (?key i, map2 fdiv
            (map (\<lambda>c. fmul (hd (ER_std_y std df_y sample_length frequency i)) c)
               (res_x (ols_ER_res minimize std df_y df_x sample_length frequency boundaries
                         weight_sum i)))
            (ER_std_x std df_y df_x sample_length frequency i))) [0..<?k]) (?key i) = Some ?row"
    unfolding std_x_def std_y_def res [symmetric, unfolded std_x_def std_y_def]
    using dist ik by (rule map_of_keyed_rows)
  then show "\<exists>out row. ols_regression_ER minimize std df_y df_x sample_length frequency
                       boundaries weight_sum = Inr out
             \<and> map_of (rows out) (window_end df_y sample_length frequency i) = Some row
             \<and> row = ?row \<and> length row = m \<and> row ! j = NaN"
    using rescaled_row_NaN [OF jm lr lsx sx, of "hd std_y"]
    by (simp add: ols_ER_rows [OF assms(1,2,3,4)])
  let ?Q = "\<lparr>loss = (\<lambda>z. fadd (sq_residuals x y z)
                        (fmul (fmul lambda' (Fin (real (length (rows df_x)))))
                           (np_sum (map fabs (map Fin z))))),
             z0 = replicate m 0, constraints = cons, bounds = replicate m boundaries\<rparr>"
  let ?rowq = "map2 fdiv (map (\<lambda>c. fmul (hd std_y) c) (res_x (minimize ?Q))) std_x"
  have lq: "length (res_x (minimize ?Q)) = m" using assms(4) by simp
  have resq: "lasso_ER_res minimize std df_y df_x sample_length frequency lambda' boundaries
               weight_sum i = minimize ?Q"
    by (simp add: lasso_ER_res_def lasso_ER_problem_def x_def y_def m_def cons_def)
  have "map_of (map (\<lambda>i. (?key i, map2 fdiv
            (map (\<lambda>c. fmul (hd (ER_std_y std df_y sample_length frequency i)) c)
               (res_x (lasso_ER_res minimize std df_y df_x sample_length frequency lambda'
                         boundaries weight_sum i)))
            (ER_std_x std df_y df_x sample_length frequency i))) [0..<?k]) (?key i) = Some ?rowq"
    unfolding std_x_def std_y_def resq [symmetric, unfolded std_x_def std_y_def]
    using dist ik by (rule map_of_keyed_rows)
  then show "\<exists>out row. lasso_regression_ER minimize std df_y df_x sample_length frequency lambda'
                       boundaries weight_sum = Inr out
             \<and> map_of (rows out) (window_end df_y sample_length frequency i) = Some row
             \<and> row = ?rowq \<and> length row = m \<and> row ! j = NaN"
    using rescaled_row_NaN [OF jm lq lsx sx, of "hd std_y"]
    by (simp add: lasso_ER_rows [OF assms(1,2,3,4)])
qed

section \<open>The estimators on the example tables\<close>

text \<open>
  The claim as the spec states it fails on the example: the optimizer reports failure in
  every window, and each estimator returns the vectors it was handed, as the rows of an
  ordinary weight schedule.
\<close>

theorem failed_fit_counterexample:
  "ols_regression ex_failing_minimize ex_y ex_x 2 1 (Fin 0, Fin (1 / 10)) (Fin 1)
     = Inr \<lparr>columns = [''A'', ''B''],
            rows = [(2, [Fin (1 / 10), Fin (1 / 10)]), (3, [Fin (1 / 10), Fin (1 / 10)])]\<rparr>
   \<and> \<not> success (ols_res ex_failing_minimize ex_y ex_x 2 1 (Fin 0, Fin (1 / 10)) (Fin 1) 0)
   \<and> \<not> success (ols_res ex_failing_minimize ex_y ex_x 2 1 (Fin 0, Fin (1 / 10)) (Fin 1) 1)
   \<and> ols_regression_ER ex_failing_minimize pd_std ex_y ex_x 2 1 (Fin 0, Fin (1 / 10)) (Fin 1)
     = Inr \<lparr>columns = [''A'', ''B''],
            rows = [(2, [Fin (1 / 10), NaN]), (3, [Fin (1 / 20), NaN])]\<rparr>
   \<and> \<not> success (ols_ER_res ex_failing_minimize pd_std ex_y ex_x 2 1 (Fin 0, Fin (1 / 10))
                   (Fin 1) 0)
   \<and> lasso_regression_ER ex_failing_minimize pd_std ex_y ex_x 2 1 (Fin 1) (Fin 0, Fin (1 / 10))
        (Fin 1)
     = Inr \<lparr>columns = [''A'', ''B''],
            rows = [(2, [Fin (1 / 10), NaN]), (3, [Fin (1 / 20), NaN])]\<rparr>
   \<and> \<not> success (lasso_ER_res ex_failing_minimize pd_std ex_y ex_x 2 1 (Fin 1)
                   (Fin 0, Fin (1 / 10)) (Fin 1) 0)"
  by (simp add: ex_y_def ex_x_def ex_failing_minimize_def index_def
      ols_regression_def ols_window_def ols_res_def ols_problem_def
      ols_regression_ER_def ols_ER_window_def ols_ER_res_def ols_ER_problem_def
      lasso_regression_ER_def lasso_ER_window_def lasso_ER_res_def lasso_ER_problem_def
      window_start_def window_end_def window_x_def window_y_def ER_std_x_def ER_std_y_def
      ER_x_def ER_y_def loc_slice_def window_std_def ex_std_values standardize_def replace_def
      set_row_def isnan_def fsub_def upt_rec)

text \<open>The stored rows on the example, with the flags replaced by success.\<close>

theorem failed_fit_is_stored_witness:
  "(\<exists>out. ols_regression ex_failing_minimize ex_y ex_x 2 1 (Fin 0, Fin (1 / 10)) (Fin 1) = Inr out
      \<and> ols_regression (set_success (\<lambda>p. True) ex_failing_minimize) ex_y ex_x 2 1
          (Fin 0, Fin (1 / 10)) (Fin 1) = Inr out
      \<and> rows out = [(2, [Fin (1 / 10), Fin (1 / 10)]), (3, [Fin (1 / 10), Fin (1 / 10)])])
   \<and> (\<exists>out. ols_regression_ER ex_failing_minimize pd_std ex_y ex_x 2 1 (Fin 0, Fin (1 / 10))
          (Fin 1) = Inr out
      \<and> ols_regression_ER (set_success (\<lambda>p. True) ex_failing_minimize) pd_std ex_y ex_x 2 1
          (Fin 0, Fin (1 / 10)) (Fin 1) = Inr out
      \<and> rows out = [(2, [Fin (1 / 10), NaN]), (3, [Fin (1 / 20), NaN])])
   \<and> (\<exists>out. lasso_regression_ER ex_failing_minimize pd_std ex_y ex_x 2 1 (Fin 1)
          (Fin 0, Fin (1 / 10)) (Fin 1) = Inr out
      \<and> lasso_regression_ER (set_success (\<lambda>p. True) ex_failing_minimize) pd_std ex_y ex_x 2 1
          (Fin 1) (Fin 0, Fin (1 / 10)) (Fin 1) = Inr out
      \<and> rows out = [(2, [Fin (1 / 10), NaN]), (3, [Fin (1 / 20), NaN])])"
  using failed_fit_is_stored [where frequency = 1 and df_y = ex_y and df_x = ex_x
      and minimize = ex_failing_minimize and sample_length = 2
      and boundaries = "(Fin 0, Fin (1 / 10))" and weight_sum = "Fin 1"
      and flag = "\<lambda>p. True" and lambda' = "Fin 1" and std = pd_std]
  by (simp add: ex_y_def ex_x_def ex_failing_minimize_def index_def
      ols_res_def ols_problem_def ols_ER_res_def ols_ER_problem_def
      lasso_ER_res_def lasso_ER_problem_def
      window_start_def window_end_def window_x_def window_y_def ER_std_x_def ER_std_y_def
      ER_x_def ER_y_def loc_slice_def window_std_def ex_std_values standardize_def replace_def
      isnan_def fsub_def upt_rec)

text \<open>Four dates, \<open>sample_length = 2\<close> and \<open>frequency = 1\<close>: two rows.\<close>

theorem weight_schedule_shape_witness:
  "schedule_shape ex_y ex_x 2 1
     (ols_regression ex_failing_minimize ex_y ex_x 2 1 (NInf, PInf) NaN)
   \<and> schedule_shape ex_y ex_x 2 1
     (ols_regression_ER ex_failing_minimize pd_std ex_y ex_x 2 1 (NInf, PInf) NaN)
   \<and> schedule_shape ex_y ex_x 2 1
     (lasso_regression_ER ex_failing_minimize pd_std ex_y ex_x 2 1 (Fin 1) (NInf, PInf) NaN)"
  using weight_schedule_shape [where frequency = 1 and sample_length = 2 and df_x = ex_x
      and df_y = ex_y and minimize = ex_failing_minimize and boundaries = "(NInf, PInf)"
      and weight_sum = NaN and lambda' = "Fin 1" and std = pd_std]
  by (simp add: ex_y_def ex_x_def ex_failing_minimize_def index_def)

text \<open>
  An optimizer that answers \<open>1\<close> when it is handed no constraint and \<open>0\<close> when it is
  handed one: the schedules of the three estimators on the example without a budget, and
  with a zero-sum budget.
\<close>

theorem budget_constraint_witness:
  "(\<exists>out. ols_regression ex_probe_minimize ex_y ex_x 2 1 (NInf, PInf) NaN = Inr out
      \<and> rows out = [(2, [Fin 1, Fin 1]), (3, [Fin 1, Fin 1])])
   \<and> (\<exists>out. ols_regression ex_probe_minimize ex_y ex_x 2 1 (NInf, PInf) (Fin 0) = Inr out
      \<and> rows out = [(2, [Fin 0, Fin 0]), (3, [Fin 0, Fin 0])])
   \<and> (\<exists>out. ols_regression_ER ex_probe_minimize pd_std ex_y ex_x 2 1 (NInf, PInf) NaN = Inr out
      \<and> rows out = [(2, [Fin 1, NaN]), (3, [Fin (1 / 2), NaN])])
   \<and> (\<exists>out. ols_regression_ER ex_probe_minimize pd_std ex_y ex_x 2 1 (NInf, PInf) (Fin 0)
          = Inr out
      \<and> rows out = [(2, [Fin 0, NaN]), (3, [Fin 0, NaN])])
   \<and> (\<exists>out. lasso_regression_ER ex_probe_minimize pd_std ex_y ex_x 2 1 (Fin 1) (NInf, PInf) NaN
          = Inr out
      \<and> rows out = [(2, [Fin 1, NaN]), (3, [Fin (1 / 2), NaN])])
   \<and> (\<exists>out. lasso_regression_ER ex_probe_minimize pd_std ex_y ex_x 2 1 (Fin 1) (NInf, PInf)
          (Fin 0) = Inr out
      \<and> rows out = [(2, [Fin 0, NaN]), (3, [Fin 0, NaN])])"
  using budget_constraint_iff_not_nan [where frequency = 1 and df_y = ex_y and df_x = ex_x
      and minimize = ex_probe_minimize and sample_length = 2 and boundaries = "(NInf, PInf)"
      and weight_sum = NaN and lambda' = "Fin 1" and std = pd_std]
    budget_constraint_iff_not_nan [where frequency = 1 and df_y = ex_y and df_x = ex_x
      and minimize = ex_probe_minimize and sample_length = 2 and boundaries = "(NInf, PInf)"
      and weight_sum = "Fin 0" and lambda' = "Fin 1" and std = pd_std]
  by (simp add: ex_y_def ex_x_def ex_probe_minimize_def index_def
      window_start_def window_end_def window_x_def window_y_def ER_std_x_def ER_std_y_def
      loc_slice_def window_std_def ex_std_values replace_def
      isnan_def fsub_def upt_rec)

text \<open>The constant second regressor in the first window of the example.\<close>

theorem zero_std_column_witness:
  "ER_std_x pd_std ex_y ex_x 2 1 0 ! 1 = NaN
   \<and> ER_x pd_std ex_y ex_x 2 1 0 = [[Fin (1 / 2), Fin 0], [Fin (3 / 2), Fin 0], [Fin (5 / 2), Fin 0]]
   \<and> (\<exists>out. ols_regression_ER ex_failing_minimize pd_std ex_y ex_x 2 1 (Fin 0, Fin (1 / 10))
               (Fin 1) = Inr out
          \<and> map_of (rows out) 2 = Some [Fin (1 / 10), NaN])
   \<and> (\<exists>out. lasso_regression_ER ex_failing_minimize pd_std ex_y ex_x 2 1 (Fin 1)
               (Fin 0, Fin (1 / 10)) (Fin 1) = Inr out
          \<and> map_of (rows out) 2 = Some [Fin (1 / 10), NaN])"
  using zero_std_column_neutralized [where frequency = 1 and df_y = ex_y and df_x = ex_x
      and minimize = ex_failing_minimize and sample_length = 2 and i = 0 and j = 1
      and boundaries = "(Fin 0, Fin (1 / 10))" and weight_sum = "Fin 1"
      and lambda' = "Fin 1" and std = pd_std]
  by (simp add: ex_y_def ex_x_def ex_failing_minimize_def index_def
      window_start_def window_end_def window_x_def window_y_def ER_std_x_def ER_std_y_def
      ER_x_def ER_y_def loc_slice_def window_std_def ex_std_values standardize_def replace_def
      isnan_def fsub_def upt_rec)

text \<open>
  A column that is constant and whose standard deviation pandas does not compute as
  \<open>0\<close>: three entries \<open>0.1\<close>. The standard deviation is about \<open>1.7e-17\<close>, it is
  not replaced, the standardized values of the column are not zero, and the stored
  coefficient of the column is the optimizer's, divided by that standard deviation.
\<close>

theorem constant_column_counterexample:
  "window_x ex_y ex_x_tenth 2 1 0 = [[Fin 1, Fin tenth], [Fin 3, Fin tenth], [Fin 5, Fin tenth]]
   \<and> pd_std [Fin tenth, Fin tenth, Fin tenth] = Fin tenth_std
   \<and> 16 / 10 ^ 18 < tenth_std \<and> tenth_std < 18 / 10 ^ 18
   \<and> ER_std_x pd_std ex_y ex_x_tenth 2 1 0 = [Fin 2, Fin tenth_std]
   \<and> ER_x pd_std ex_y ex_x_tenth 2 1 0
       = [[Fin (1 / 2), Fin (tenth / tenth_std)], [Fin (3 / 2), Fin (tenth / tenth_std)],
          [Fin (5 / 2), Fin (tenth / tenth_std)]]
   \<and> ER_x pd_std ex_y ex_x_tenth 2 1 0 ! 0 ! 1 \<noteq> Fin 0
   \<and> ols_regression_ER ex_failing_minimize pd_std ex_y ex_x_tenth 2 1 (Fin 0, Fin (1 / 10))
        (Fin 1)
     = Inr \<lparr>columns = [''A'', ''B''],
            rows = [(2, [Fin (1 / 10), Fin (1 / (5 * tenth_std))]),
                    (3, [Fin (1 / 20), Fin (1 / (10 * tenth_std))])]\<rparr>"
  using tenth_std_pos tenth_pos tenth_std_bounds
  by (simp add: ex_y_def ex_x_tenth_def ex_failing_minimize_def index_def
      ols_regression_ER_def ols_ER_window_def ols_ER_res_def ols_ER_problem_def
      window_start_def window_end_def window_x_def window_y_def ER_std_x_def ER_std_y_def
      ER_x_def ER_y_def loc_slice_def window_std_def ex_std_values tenth_std_eq
      standardize_def replace_def set_row_def
      isnan_def fsub_def upt_rec)

section \<open>The Lasso estimator without penalty\<close>

lemma lasso_problem_zero:
  "lasso_ER_problem x y n m (Fin 0) boundaries weight_sum
   = ols_ER_problem x y m boundaries weight_sum"
  by (simp add: lasso_ER_problem_def ols_ER_problem_def np_sum_abs_Fin fadd_zero_right)

lemma lasso_window_zero:
  "lasso_ER_window minimize std df_y df_x sample_length frequency (Fin 0) boundaries weight_sum
   = ols_ER_window minimize std df_y df_x sample_length frequency boundaries weight_sum"
  by (rule ext)
    (simp add: lasso_ER_window_def ols_ER_window_def lasso_ER_res_def ols_ER_res_def
      lasso_problem_zero)

text \<open>
  Claim C8. For every target, regressor table, \<open>sample_length\<close>, \<open>frequency\<close>, bounds
  and \<open>weight_sum\<close>, and for every optimizer, \<open>lasso_regression_ER\<close> called with
  \<open>lambda_ = 0\<close> returns what \<open>ols_regression_ER\<close> returns for the same arguments: the
  same rows under the same end dates with the same values, or the same exception. The
  penalty \<open>0 * n * np.sum(np.abs(z))\<close> is \<open>0\<close> at every finite \<open>z\<close>, so the optimizer
  is handed the same objective, start vector, constraints and bounds in every window.
\<close>

theorem lasso_zero_lambda_is_ols_ER:
  "lasso_regression_ER minimize std df_y df_x sample_length frequency (Fin 0) boundaries weight_sum
   = ols_regression_ER minimize std df_y df_x sample_length frequency boundaries weight_sum"
  by (simp add: lasso_regression_ER_def ols_regression_ER_def lasso_window_zero)

end
